theory Spec2Isabelle
  imports Main "HOL-Library.AList"
begin

section \<open>Values, errors and objects\<close>

text \<open>
  The model follows \<^verbatim>\<open>proplot/axes/base.py\<close>. Python values that the code only
  stores, compares or tests for truth are \<open>pyval\<close>; every \<^verbatim>\<open>raise\<close> is a branch
  \<open>Inl e\<close> of a result \<open>error + 'a\<close>. Objects (axes, artists) are compared by identity in
  the source, so they are references (\<open>nat\<close>) into a store.
\<close>

datatype pyval = VNone | VBool bool | VStr string | VInt int

fun truthy :: "pyval \<Rightarrow> bool" where
  "truthy VNone = False"
| "truthy (VBool b) = b"
| "truthy (VStr s) = (s \<noteq> [])"
| "truthy (VInt n) = (n \<noteq> 0)"

datatype error = RuntimeError | ValueError | TypeError | KeyError | AttributeError

type_synonym ref = nat
type_synonym artist = nat
type_synonym props = "string \<rightharpoonup> pyval"

text \<open>A Python dictionary whose keys are enumerated (keyword arguments): an association list.\<close>

type_synonym pydict = "(string \<times> pyval) list"

datatype axis = X | Y

datatype side = SLeft | SRight | SBottom | STop

text \<open>The ten keys of \<^verbatim>\<open>_title_dict\<close>, fixed in \<^verbatim>\<open>__init__\<close> and never added to or deleted.\<close>

datatype slot = Abc | TLeft | TCenter | TRight
  | UpperLeft | UpperCenter | UpperRight | LowerLeft | LowerCenter | LowerRight

text \<open>
  A title text object, reduced to what the title code reads and writes: the string, the
  colour and the font properties (size, weight, family, ...); \<open>other\<close> holds every further
  property set through \<^verbatim>\<open>update\<close>. \<open>patched\<close> says whether the object was made by
  \<^verbatim>\<open>Axes.text\<close>, which replaces its \<^verbatim>\<open>update\<close> by \<^verbatim>\<open>_update_text\<close>.
\<close>

record text_obj =
  text_str :: string
  color :: pyval
  fontproperties :: props
  other :: props
  patched :: bool

text \<open>
  A keyword dictionary passed to \<^verbatim>\<open>Text.update\<close>: the entry \<^verbatim>\<open>'text'\<close> (a string)
  and all the other entries.
\<close>

record kw =
  kw_text :: "string option"
  kw_props :: pydict

text \<open>
  What the file takes from outside: \<^verbatim>\<open>_translate_loc(loc, 'text')\<close> of
  \<^verbatim>\<open>proplot/config.py\<close> (\<open>Inl\<close> when it raises, \<open>None\<close> when it returns a value that
  is not a key of \<^verbatim>\<open>_title_dict\<close>), and matplotlib's table of the names that
  \<^verbatim>\<open>Text.update\<close> accepts (it raises \<^verbatim>\<open>AttributeError\<close> for any other name).
\<close>

record env =
  translate_loc :: "pyval \<Rightarrow> error + slot option"
  is_property :: "string \<Rightarrow> bool"

text \<open>
  The values \<^verbatim>\<open>_update_title\<close> reads from the configuration \<^verbatim>\<open>rc\<close>: the two
  \<^verbatim>\<open>rc.fill\<close> dictionaries and the three \<^verbatim>\<open>rc.find\<close> results (\<open>VNone\<close> when the
  setting is not in the context).
\<close>

record rc_context =
  rc_title_fill :: pydict
  rc_title_border_fill :: pydict
  rc_abc_titlepad :: pyval
  rc_title_pad :: pyval
  rc_title_loc :: pyval

text \<open>
  A drawn guide: one legend or colorbar object, or the tuple of legend objects that
  \<^verbatim>\<open>_draw_legend\<close> returns for a multi-row legend.
\<close>

datatype drawn = Single artist | Multiple "artist list"

text \<open>
  The object handed to \<^verbatim>\<open>_add_guide\<close>: the pair \<^verbatim>\<open>(handles, labels)\<close> to queue, each
  \<^verbatim>\<open>None\<close>, a list or a single object; or a drawn guide.
\<close>

datatype 'a arg = ArgNone | ArgList "'a list" | ArgOne 'a

datatype guide_obj =
  Payload "nat arg" "string arg"
| Object drawn

text \<open>
  An entry of \<^verbatim>\<open>_legend_dict\<close> or \<^verbatim>\<open>_colorbar_dict\<close>: the queued 3-tuple
  \<^verbatim>\<open>(handles, labels, kwargs)\<close> or a drawn guide.
\<close>

datatype guide_entry =
  Queued "nat list" "string list" props
| Done drawn

record axes =
  subplotspec :: "(int \<times> int \<times> int \<times> int) option"
  panel_hidden :: bool
  panel_side :: "side option"
  panel_dict :: "side \<Rightarrow> ref list"
  title_dict :: "slot \<Rightarrow> text_obj"
  abc_loc :: "slot option"
  title_loc :: "slot option"
  title_above :: pyval
  title_pad :: pyval
  abc_title_pad :: pyval
  title_border_kwargs :: pydict
  spines :: "(string \<times> bool) list"
  xaxis_visible :: bool
  yaxis_visible :: bool
  patch_alpha :: pyval
  patch_facecolor :: pyval
  legend_dict :: "(string \<times> guide_entry) list"
  colorbar_dict :: "(string \<times> guide_entry) list"
  legend_attr :: "artist option"
  removed :: "artist list"

type_synonym store = "ref \<Rightarrow> axes"

section \<open>A-b-c labels\<close>

definition ABC_STRING :: string where
  "ABC_STRING = ''abcdefghijklmnopqrstuvwxyz''"

definition is_aA :: "char \<Rightarrow> bool" where
  "is_aA c = (c = CHR ''a'' \<or> c = CHR ''A'')"

text \<open>\<^verbatim>\<open>abc.replace(old, new, 1)\<close> for a one-character \<open>old\<close>.\<close>

fun replace_first :: "char \<Rightarrow> string \<Rightarrow> string \<Rightarrow> string" where
  "replace_first old new [] = []"
| "replace_first old new (c # cs) =
     (if c = old then new @ cs else c # replace_first old new cs)"

text \<open>\<^verbatim>\<open>str.upper\<close> on the letters of \<open>ABC_STRING\<close>; other characters are kept.\<close>

definition upper_char :: "char \<Rightarrow> char" where
  "upper_char c =
     (case map_of (zip ABC_STRING ''ABCDEFGHIJKLMNOPQRSTUVWXYZ'') c of
        Some u \<Rightarrow> u | None \<Rightarrow> c)"

definition upper :: "string \<Rightarrow> string" where
  "upper s = map upper_char s"

text \<open>
  The label block of \<^verbatim>\<open>_update_abc\<close>: \<open>abc\<close> is the value of the setting \<^verbatim>\<open>'abc'\<close>
  (\<open>VNone\<close> when it is not in the context), \<open>number\<close> is \<^verbatim>\<open>self.number\<close>. The
  result is the value stored under \<^verbatim>\<open>kw['text']\<close>, or \<open>None\<close> when the block
  leaves \<^verbatim>\<open>kw\<close> alone.
\<close>

definition abc_label :: "pyval \<Rightarrow> int option \<Rightarrow> error + string option" where
  "abc_label abc0 number =
     (let abc = (if abc0 = VBool True then VStr ''a'' else abc0) in
      if truthy abc \<and>
         (case abc of VStr s \<Rightarrow> CHR ''a'' \<notin> set s \<and> CHR ''A'' \<notin> set s | _ \<Rightarrow> True)
      then Inl ValueError
      else (case (abc, number) of
          (VStr s, Some n) \<Rightarrow>
            if s = [] then Inr None
            else (case find is_aA s of
                None \<Rightarrow> Inl AttributeError
              | Some old \<Rightarrow>
                  (let nabc = (n - 1) div 26;
                       iabc = (n - 1) mod 26;
                       new = replicate (nat (nabc + 1)) (ABC_STRING ! nat iabc);
                       new = (if old = CHR ''A'' then upper new else new)
                   in Inr (Some (replace_first old new s))))
        | _ \<Rightarrow> Inr None))"

section \<open>Axes that share an axis\<close>

definition range_subplotspec :: "axes \<Rightarrow> axis \<Rightarrow> error + (int \<times> int)" where
  "range_subplotspec ax x =
     (case subplotspec ax of
        None \<Rightarrow> Inl RuntimeError
      | Some (row1, row2, col1, col2) \<Rightarrow>
          Inr (if x = X then (col1, col2) else (row1, row2)))"

text \<open>
  \<^verbatim>\<open>[ax for ax in axs if ax._range_subplotspec(x) == irange]\<close>: the comprehension
  raises as soon as one of the axes is not a subplot.
\<close>

fun same_range :: "store \<Rightarrow> axis \<Rightarrow> int \<times> int \<Rightarrow> ref list \<Rightarrow> error + ref list" where
  "same_range st x irange [] = Inr []"
| "same_range st x irange (a # as) =
     (case range_subplotspec (st a) x of
        Inl e \<Rightarrow> Inl e
      | Inr r \<Rightarrow>
          (case same_range st x irange as of
             Inl e \<Rightarrow> Inl e
           | Inr rest \<Rightarrow> Inr (if r = irange then a # rest else rest)))"

text \<open>\<^verbatim>\<open>[ax._range_subplotspec(y)[idx] for ax in axs]\<close>.\<close>

fun extents :: "store \<Rightarrow> axis \<Rightarrow> nat \<Rightarrow> ref list \<Rightarrow> error + int list" where
  "extents st y idx [] = Inr []"
| "extents st y idx (a # as) =
     (case range_subplotspec (st a) y of
        Inl e \<Rightarrow> Inl e
      | Inr r \<Rightarrow>
          (case extents st y idx as of
             Inl e \<Rightarrow> Inl e
           | Inr rest \<Rightarrow> Inr ((if idx = 0 then fst r else snd r) # rest)))"

text \<open>\<^verbatim>\<open>np.argmax\<close> and \<^verbatim>\<open>np.argmin\<close>: the index of the first extreme value.\<close>

definition argmax :: "int list \<Rightarrow> nat" where
  "argmax vs = length (takeWhile (\<lambda>v. v \<noteq> Max (set vs)) vs)"

definition argmin :: "int list \<Rightarrow> nat" where
  "argmin vs = length (takeWhile (\<lambda>v. v \<noteq> Min (set vs)) vs)"

text \<open>\<^verbatim>\<open>pax = axs.pop(i); return [pax, *axs]\<close>.\<close>

definition pop_first :: "nat \<Rightarrow> 'a list \<Rightarrow> 'a list" where
  "pop_first i axs = axs ! i # (take i axs @ drop (Suc i) axs)"

text \<open>
  \<^verbatim>\<open>_get_share_axes(self, x, panels)\<close>. Two things come from outside the file:
  \<open>iter_axes\<close> is the list that \<^verbatim>\<open>self.figure._iter_axes(hidden=False, children=False,
  panels=panels)\<close> yields, and \<open>set_order\<close> is the order in which Python enumerates the set
  \<^verbatim>\<open>{self, *axs}\<close> (it depends on the objects' hashes): any function that returns the
  distinct elements of its argument, see \<open>is_set_order\<close>.
\<close>

definition is_set_order :: "(ref list \<Rightarrow> ref list) \<Rightarrow> bool" where
  "is_set_order f = (\<forall>xs. distinct (f xs) \<and> set (f xs) = set xs)"

definition get_share_axes ::
  "(ref list \<Rightarrow> ref list) \<Rightarrow> ref list \<Rightarrow> store \<Rightarrow> ref \<Rightarrow> axis \<Rightarrow> error + ref list" where
  "get_share_axes set_order iter_axes st self x =
     (case subplotspec (st self) of
        None \<Rightarrow> Inr [self]
      | Some _ \<Rightarrow>
          (let y = (if x = X then Y else X);
               idx = (if x = X then 0 else 1::nat);
               argfunc = (if x = X then argmax else argmin)
           in case range_subplotspec (st self) x of
                Inl e \<Rightarrow> Inl e
              | Inr irange \<Rightarrow>
                  (case same_range st x irange iter_axes of
                     Inl e \<Rightarrow> Inl e
                   | Inr axs \<Rightarrow>
                       (let axs = set_order (self # axs) in
                        case extents st y idx axs of
                          Inl e \<Rightarrow> Inl e
                        | Inr vs \<Rightarrow> Inr (pop_first (argfunc vs) axs)))))"

text \<open>
  The number the source compares to choose the reference: for \<^verbatim>\<open>x == 'x'\<close> it is
  \<^verbatim>\<open>_range_subplotspec('y')[0]\<close>, the first row; otherwise it is
  \<^verbatim>\<open>_range_subplotspec('x')[1]\<close>, the last column.
\<close>

definition share_key :: "store \<Rightarrow> axis \<Rightarrow> ref \<Rightarrow> int" where
  "share_key st x a =
     (case subplotspec (st a) of
        None \<Rightarrow> 0
      | Some (row1, row2, col1, col2) \<Rightarrow> if x = X then row1 else col2)"

text \<open>
  The enumeration of \<^verbatim>\<open>{self, *axs}\<close> that \<open>get_share_axes\<close> works on, named for
  the statements below.
\<close>

definition share_candidates :: "(ref list \<Rightarrow> ref list) \<Rightarrow> ref list \<Rightarrow> store \<Rightarrow> ref \<Rightarrow> axis \<Rightarrow> ref list" where
  "share_candidates set_order iter_axes st self x =
     set_order (self # filter (\<lambda>a. range_subplotspec (st a) x = range_subplotspec (st self) x) iter_axes)"


section \<open>Panels\<close>

text \<open>
  \<^verbatim>\<open>_hide_panel\<close>: the spines, both axis objects and the background patch of the axes
  \<open>p\<close> are changed, and the flag \<^verbatim>\<open>_panel_hidden\<close> is set.
\<close>

definition hide_panel :: "store \<Rightarrow> ref \<Rightarrow> store" where
  "hide_panel st p =
     st(p := (st p)\<lparr>spines := map (\<lambda>(name, visible). (name, False)) (spines (st p)),
                    xaxis_visible := False,
                    yaxis_visible := False,
                    patch_alpha := VInt 0,
                    patch_facecolor := VStr ''none'',
                    panel_hidden := True\<rparr>)"

text \<open>\<^verbatim>\<open>[pax for pax in paxs if not pax._panel_hidden]\<close>.\<close>

definition visible_panels :: "store \<Rightarrow> ref \<Rightarrow> side \<Rightarrow> ref list" where
  "visible_panels st a sd = filter (\<lambda>pax. \<not> panel_hidden (st pax)) (panel_dict (st a) sd)"

text \<open>
  \<^verbatim>\<open>_share_short_axis(self, share, side)\<close>. The method \<^verbatim>\<open>_sharex_setup\<close> or
  \<^verbatim>\<open>_sharey_setup\<close> that the loop calls on each panel is the one of the panel's class
  (the subclasses override it); the model returns the calls the loop makes, in order, as
  triples (child, axis, parent). Both panel lists are built before the first call, so the
  calls cannot change which pairs are visited.
\<close>

definition share_short_axis ::
  "store \<Rightarrow> ref \<Rightarrow> ref option \<Rightarrow> side \<Rightarrow> (ref \<times> axis \<times> ref) list" where
  "share_short_axis st self share sd =
     (case share of
        None \<Rightarrow> []
      | Some sh \<Rightarrow>
          if panel_side (st self) \<noteq> None then []
          else
            (let ax = (if sd = SLeft \<or> sd = SRight then X else Y);
                 caxs = visible_panels st self sd;
                 paxs = visible_panels st sh sd
             in map (\<lambda>(cax, pax). (cax, ax, pax)) (zip caxs paxs)))"

section \<open>Title slots\<close>

text \<open>
  \<^verbatim>\<open>str.isspace\<close> on a character (code points below 256), and the test
  \<^verbatim>\<open>not text.strip()\<close>: the text is empty or whitespace only.
\<close>

definition py_isspace :: "char \<Rightarrow> bool" where
  "py_isspace c = (of_char c \<in> {9, 10, 11, 12, 13, 28, 29, 30, 31, 32, 133, 160 :: nat})"

definition blank :: "string \<Rightarrow> bool" where
  "blank s = list_all py_isspace s"

text \<open>A text object is addressed by its axes and its key in \<^verbatim>\<open>_title_dict\<close>.\<close>

definition get_text :: "store \<Rightarrow> ref \<times> slot \<Rightarrow> text_obj" where
  "get_text st p = title_dict (st (fst p)) (snd p)"

definition put_text :: "store \<Rightarrow> ref \<times> slot \<Rightarrow> text_obj \<Rightarrow> store" where
  "put_text st p t =
     st(fst p := (st (fst p))\<lparr>title_dict := (title_dict (st (fst p)))(snd p := t)\<rparr>)"

text \<open>\<^verbatim>\<open>_transfer_text(src, dest)\<close>, statement by statement.\<close>

definition transfer_text :: "store \<Rightarrow> ref \<times> slot \<Rightarrow> ref \<times> slot \<Rightarrow> store" where
  "transfer_text st src dest =
     (let text = text_str (get_text st src);
          st = put_text st dest ((get_text st dest)\<lparr>color := color (get_text st src)\<rparr>);
          st = put_text st dest
                 ((get_text st dest)\<lparr>fontproperties := fontproperties (get_text st src)\<rparr>)
      in if blank text then st
         else
           (let st = put_text st dest ((get_text st dest)\<lparr>text_str := text\<rparr>)
            in put_text st src ((get_text st src)\<lparr>text_str := []\<rparr>)))"

text \<open>
  \<^verbatim>\<open>_above_title\<close>. \<open>title_above (st self) = VBool True\<close> is the test
  \<^verbatim>\<open>self._title_above is True\<close>.
\<close>

definition outer_names :: "axes \<Rightarrow> slot list" where
  "outer_names ax =
     [TLeft, TCenter, TRight]
     @ (if abc_loc ax \<in> {Some TLeft, Some TCenter, Some TRight} then [Abc] else [])"

definition title_to_panel :: "store \<Rightarrow> ref \<Rightarrow> ref \<Rightarrow> bool" where
  "title_to_panel st self pax =
     (title_above (st self) = VBool True
      \<or> (\<not> panel_hidden (st pax) \<and> title_above (st self) = VStr ''panels''))"

definition above_title :: "store \<Rightarrow> ref \<Rightarrow> store" where
  "above_title st self =
     (let paxs = panel_dict (st self) STop in
      if paxs = [] then st
      else
        (let pax = last paxs;
             names = outer_names (st self);
             (src, dest) = (if title_to_panel st self pax then (self, pax) else (pax, self));
             st = fold (\<lambda>name st. transfer_text st (src, name) (dest, name)) names st;
             st = st(dest := (st dest)\<lparr>title_pad := title_pad (st src)\<rparr>);
             st = st(dest := (st dest)\<lparr>abc_title_pad := abc_title_pad (st src)\<rparr>)
         in st))"

text \<open>
  \<^verbatim>\<open>Text.update(props)\<close> of matplotlib on the modelled part of a text object: every key
  must name a property; \<^verbatim>\<open>text\<close>, \<^verbatim>\<open>color\<close> and the font properties go to their
  fields, every other property to \<open>other\<close>.
\<close>

definition FONT_KEYS :: "string set" where
  "FONT_KEYS = {''family'', ''style'', ''variant'', ''weight'', ''stretch'', ''size''}"

definition Text_update :: "env \<Rightarrow> kw \<Rightarrow> text_obj \<Rightarrow> error + text_obj" where
  "Text_update E k t =
     (if list_all (\<lambda>(key, v). is_property E key) (kw_props k)
      then Inr (t\<lparr>text_str := (case kw_text k of None \<Rightarrow> text_str t | Some s \<Rightarrow> s),
                  color := (case map_of (kw_props k) ''color'' of
                              None \<Rightarrow> color t | Some c \<Rightarrow> c),
                  fontproperties := fontproperties t ++ (map_of (kw_props k) |` FONT_KEYS),
                  other := other t ++ (map_of (kw_props k) |` (- insert ''color'' FONT_KEYS))\<rparr>)
      else Inl AttributeError)"

text \<open>
  \<^verbatim>\<open>_update_text\<close>, the replacement of \<^verbatim>\<open>update\<close> on the text objects made by
  \<^verbatim>\<open>Axes.text\<close>. The pseudo properties are popped; of their effects the model keeps
  the one on the colour (\<^verbatim>\<open>text.set_color(facecolor)\<close> under \<^verbatim>\<open>border\<close>); the path
  effects and the bounding box patch are rendering state outside the model.
\<close>

definition PSEUDO_KEYS :: "string list" where
  "PSEUDO_KEYS = [''border'', ''bordercolor'', ''borderinvert'', ''borderwidth'',
     ''bbox'', ''bboxcolor'', ''bboxstyle'', ''bboxalpha'', ''bboxpad'']"

definition pop_default :: "pydict \<Rightarrow> string \<Rightarrow> pyval \<Rightarrow> pyval" where
  "pop_default d key dflt = (case map_of d key of None \<Rightarrow> dflt | Some v \<Rightarrow> v)"

definition update_text :: "env \<Rightarrow> kw \<Rightarrow> text_obj \<Rightarrow> error + text_obj" where
  "update_text E k t =
     (let props = kw_props k;
          border = pop_default props ''border'' VNone;
          bordercolor = pop_default props ''bordercolor'' (VStr ''w'');
          borderinvert = pop_default props ''borderinvert'' (VBool False);
          t = (if truthy border
               then t\<lparr>color := (if truthy borderinvert then bordercolor else color t)\<rparr>
               else t);
          props = filter (\<lambda>(key, v). key \<notin> set PSEUDO_KEYS) props
      in Text_update E (k\<lparr>kw_props := props\<rparr>) t)"

definition text_update :: "env \<Rightarrow> kw \<Rightarrow> text_obj \<Rightarrow> error + text_obj" where
  "text_update E k t = (if patched t then update_text E k t else Text_update E k t)"

definition slot_name :: "slot \<Rightarrow> string" where
  "slot_name s =
     (case s of
        Abc \<Rightarrow> ''abc'' | TLeft \<Rightarrow> ''left'' | TCenter \<Rightarrow> ''center'' | TRight \<Rightarrow> ''right''
      | UpperLeft \<Rightarrow> ''upper left'' | UpperCenter \<Rightarrow> ''upper center''
      | UpperRight \<Rightarrow> ''upper right'' | LowerLeft \<Rightarrow> ''lower left''
      | LowerCenter \<Rightarrow> ''lower center'' | LowerRight \<Rightarrow> ''lower right'')"

text \<open>
  \<^verbatim>\<open>_update_title(self, loc, title, **kwargs)\<close>. The call of
  \<^verbatim>\<open>_set_title_offset_trans\<close> changes a transform only and is left out. \<open>title_kw\<close>
  is the dictionary \<^verbatim>\<open>kw\<close> as it stands when the text object is updated, and
  \<open>update_title_settings\<close> is the first part of the method, which stores the border
  properties and the pads.
\<close>

definition title_kw :: "rc_context \<Rightarrow> pydict \<Rightarrow> slot \<Rightarrow> string option \<Rightarrow> kw \<Rightarrow> kw" where
  "title_kw rc border_kwargs s title kwargs =
     (let k = rc_title_fill rc;
          k = (if map_of k ''color'' = Some (VStr ''auto'') then AList.delete ''color'' k else k);
          k = (if s \<notin> {TLeft, TRight, TCenter} then AList.merge k border_kwargs else k)
      in \<lparr>kw_text = (case kw_text kwargs of None \<Rightarrow> title | Some t \<Rightarrow> Some t),
          kw_props = AList.merge k (kw_props kwargs)\<rparr>)"

definition update_title_settings :: "rc_context \<Rightarrow> store \<Rightarrow> ref \<Rightarrow> store" where
  "update_title_settings rc st self =
     (let st = st(self := (st self)\<lparr>title_border_kwargs :=
                   AList.merge (title_border_kwargs (st self)) (rc_title_border_fill rc)\<rparr>);
          st = (if rc_abc_titlepad rc \<noteq> VNone
                then st(self := (st self)\<lparr>abc_title_pad := rc_abc_titlepad rc\<rparr>) else st);
          st = (if rc_title_pad rc \<noteq> VNone
                then st(self := (st self)\<lparr>title_pad := rc_title_pad rc\<rparr>) else st)
      in st)"

definition update_title ::
  "env \<Rightarrow> rc_context \<Rightarrow> store \<Rightarrow> ref \<Rightarrow> pyval \<Rightarrow> string option \<Rightarrow> kw \<Rightarrow> error + store" where
  "update_title E rc st self loc title kwargs =
     (let st = update_title_settings rc st self
      in case
           (if loc \<noteq> VNone then
              (case translate_loc E loc of
                 Inl e \<Rightarrow> Inl e
               | Inr l \<Rightarrow> Inr (l, st))
            else
              (let old = title_loc (st self);
                   l0 = rc_title_loc rc;
                   l0 = (if truthy l0 then l0
                         else (case old of None \<Rightarrow> VNone | Some s \<Rightarrow> VStr (slot_name s)))
               in case translate_loc E l0 of
                    Inl e \<Rightarrow> Inl e
                  | Inr l \<Rightarrow>
                      (let st = st(self := (st self)\<lparr>title_loc := l\<rparr>) in
                       case old of
                         None \<Rightarrow> Inr (l, st)
                       | Some prev \<Rightarrow>
                           if l = old then Inr (l, st)
                           else (case l of
                                   None \<Rightarrow> Inl KeyError
                                 | Some s \<Rightarrow> Inr (l, transfer_text st (self, prev) (self, s))))))
         of
           Inl e \<Rightarrow> Inl e
         | Inr (l, st) \<Rightarrow>
             (case l of
                None \<Rightarrow> Inl KeyError
              | Some s \<Rightarrow>
                  (case text_update E (title_kw rc (title_border_kwargs (st self)) s title kwargs)
                          (title_dict (st self) s) of
                     Inl e \<Rightarrow> Inl e
                   | Inr t \<Rightarrow> Inr (above_title (put_text st (self, s) t) self))))"

text \<open>
  Named for the statements below: what a transfer makes of the source object and of the
  destination object, and the reading of a property of a text object.
\<close>

definition moved_src :: "text_obj \<Rightarrow> text_obj" where
  "moved_src S = (if blank (text_str S) then S else S\<lparr>text_str := []\<rparr>)"

definition moved_dest :: "text_obj \<Rightarrow> text_obj \<Rightarrow> text_obj" where
  "moved_dest S D =
     D\<lparr>color := color S, fontproperties := fontproperties S,
       text_str := (if blank (text_str S) then text_str D else text_str S)\<rparr>"

definition get_property :: "text_obj \<Rightarrow> string \<Rightarrow> pyval option" where
  "get_property t key =
     (if key = ''color'' then Some (color t)
      else if key \<in> FONT_KEYS then fontproperties t key
      else other t key)"

section \<open>The guide queue\<close>

definition side_name :: "side \<Rightarrow> string" where
  "side_name sd =
     (case sd of SLeft \<Rightarrow> ''left'' | SRight \<Rightarrow> ''right''
               | SBottom \<Rightarrow> ''bottom'' | STop \<Rightarrow> ''top'')"

text \<open>\<^verbatim>\<open>_not_none(handles, [])\<close> followed by the wrapping of a single object in a list.\<close>

definition as_list :: "'a arg \<Rightarrow> 'a list" where
  "as_list a = (case a of ArgNone \<Rightarrow> [] | ArgList xs \<Rightarrow> xs | ArgOne x \<Rightarrow> [x])"

definition guide_dict :: "string \<Rightarrow> axes \<Rightarrow> (string \<times> guide_entry) list" where
  "guide_dict guide ax = (if guide = ''legend'' then legend_dict ax else colorbar_dict ax)"

definition set_guide_dict :: "string \<Rightarrow> (string \<times> guide_entry) list \<Rightarrow> axes \<Rightarrow> axes" where
  "set_guide_dict guide d ax =
     (if guide = ''legend'' then ax\<lparr>legend_dict := d\<rparr> else ax\<lparr>colorbar_dict := d\<rparr>)"

text \<open>
  \<^verbatim>\<open>_add_guide(self, guide, obj, loc, **kwargs)\<close>. \<open>removed\<close> records the calls of
  \<^verbatim>\<open>obj_prev.remove()\<close>. The dictionaries keep their insertion order:
  \<open>AList.update\<close> replaces the value of a key in place and puts a new key last.
  Unpacking a tuple of drawn legends into \<^verbatim>\<open>handles_full, labels_full, kwargs_full\<close>
  raises \<^verbatim>\<open>ValueError\<close> unless the tuple has three members, and then
  \<^verbatim>\<open>handles_full.extend\<close> raises \<^verbatim>\<open>AttributeError\<close>; an empty tuple as \<open>obj\<close>
  holds no legend, so it is unpacked into \<^verbatim>\<open>handles, labels\<close>, which raises
  \<^verbatim>\<open>ValueError\<close>.
\<close>

definition add_guide :: "string \<Rightarrow> guide_obj \<Rightarrow> string \<Rightarrow> props \<Rightarrow> axes \<Rightarrow> error + axes" where
  "add_guide guide obj loc kwargs ax =
     (if guide \<noteq> ''legend'' \<and> guide \<noteq> ''colorbar'' then Inl TypeError
      else
        (case (if loc = ''fill'' then map_option side_name (panel_side ax) else Some loc) of
           None \<Rightarrow> Inr ax
         | Some loc \<Rightarrow>
             (let ax = (case map_of (guide_dict guide ax) loc of
                          Some (Done (Single obj_prev)) \<Rightarrow>
                            (let ax = set_guide_dict guide
                                        (AList.delete loc (guide_dict guide ax)) ax
                             in if guide = ''colorbar'' then ax
                                else if legend_attr ax = Some obj_prev
                                then ax\<lparr>legend_attr := None\<rparr>
                                else ax\<lparr>removed := removed ax @ [obj_prev]\<rparr>)
                        | _ \<Rightarrow> ax)
              in case obj of
                   Payload handles labels \<Rightarrow>
                     (case map_of (guide_dict guide ax) loc of
                        None \<Rightarrow>
                          Inr (set_guide_dict guide
                                 (AList.update loc
                                    (Queued ([] @ as_list handles) ([] @ as_list labels)
                                       (Map.empty ++ kwargs))
                                    (guide_dict guide ax)) ax)
                      | Some (Queued handles_full labels_full kwargs_full) \<Rightarrow>
                          Inr (set_guide_dict guide
                                 (AList.update loc
                                    (Queued (handles_full @ as_list handles)
                                       (labels_full @ as_list labels)
                                       (kwargs_full ++ kwargs))
                                    (guide_dict guide ax)) ax)
                      | Some (Done (Single a)) \<Rightarrow> Inl TypeError
                      | Some (Done (Multiple objs)) \<Rightarrow>
                          if length objs = 3 then Inl AttributeError else Inl ValueError)
                 | Object d \<Rightarrow>
                     if d = Multiple [] then Inl ValueError
                     else Inr (set_guide_dict guide
                                 (AList.update loc (Done d) (guide_dict guide ax)) ax))))"

text \<open>
  \<^verbatim>\<open>_draw_guides\<close>. The two drawing methods \<^verbatim>\<open>_draw_colorbar\<close> and
  \<^verbatim>\<open>_draw_legend\<close> build matplotlib objects; they are parameters here, functions from
  the axes and the arguments to the drawn object and the axes as the call leaves it (or an
  error). Each loop runs over a copy of the dictionary's items taken when it starts.
\<close>

type_synonym drawer =
  "axes \<Rightarrow> nat list \<Rightarrow> string list option \<Rightarrow> string \<Rightarrow> props \<Rightarrow> error + (drawn \<times> axes)"

text \<open>\<^verbatim>\<open>labels or None\<close>.\<close>

definition or_none :: "'a list \<Rightarrow> 'a list option" where
  "or_none xs = (if xs = [] then None else Some xs)"

fun draw_colorbars :: "drawer \<Rightarrow> (string \<times> guide_entry) list \<Rightarrow> axes \<Rightarrow> error + axes" where
  "draw_colorbars draw [] ax = Inr ax"
| "draw_colorbars draw ((loc, colorbar) # items) ax =
     (case colorbar of
        Done (Single a) \<Rightarrow> draw_colorbars draw items ax
      | Done (Multiple objs) \<Rightarrow> if length objs = 3 then Inl TypeError else Inl ValueError
      | Queued handles labels kwargs \<Rightarrow>
          (case draw ax handles (or_none labels) loc kwargs of
             Inl e \<Rightarrow> Inl e
           | Inr (cb, ax) \<Rightarrow>
               draw_colorbars draw items
                 (ax\<lparr>colorbar_dict := AList.update loc (Done cb) (colorbar_dict ax)\<rparr>)))"

fun draw_legends :: "drawer \<Rightarrow> (string \<times> guide_entry) list \<Rightarrow> axes \<Rightarrow> error + axes" where
  "draw_legends draw [] ax = Inr ax"
| "draw_legends draw ((loc, legend) # items) ax =
     (case legend of
        Done (Single a) \<Rightarrow> draw_legends draw items ax
      | Done (Multiple objs) \<Rightarrow>
          if objs \<noteq> [] then draw_legends draw items ax else Inl ValueError
      | Queued handles labels kwargs \<Rightarrow>
          (case draw ax handles (or_none labels) loc kwargs of
             Inl e \<Rightarrow> Inl e
           | Inr (leg, ax) \<Rightarrow>
               draw_legends draw items
                 (ax\<lparr>legend_dict := AList.update loc (Done leg) (legend_dict ax)\<rparr>)))"

definition draw_guides :: "drawer \<Rightarrow> drawer \<Rightarrow> axes \<Rightarrow> error + axes" where
  "draw_guides draw_colorbar draw_legend ax =
     (case draw_colorbars draw_colorbar (colorbar_dict ax) ax of
        Inl e \<Rightarrow> Inl e
      | Inr ax \<Rightarrow> draw_legends draw_legend (legend_dict ax) ax)"

section \<open>Example objects\<close>

text \<open>
  An axes as \<^verbatim>\<open>__init__\<close> leaves it (with \<^verbatim>\<open>rc['title.above']\<close> true and both
  pads 5), used to build the concrete figures of the examples below.
\<close>

definition empty_text :: "bool \<Rightarrow> text_obj" where
  "empty_text p =
     \<lparr>text_str = [], color = VStr ''black'', fontproperties = Map.empty,
      other = Map.empty, patched = p\<rparr>"

definition example_axes :: axes where
  "example_axes =
     \<lparr>subplotspec = None, panel_hidden = False, panel_side = None,
      panel_dict = (\<lambda>_. []),
      title_dict = (\<lambda>s. empty_text (s \<notin> {TLeft, TCenter, TRight})),
      abc_loc = None, title_loc = None, title_above = VBool True,
      title_pad = VInt 5, abc_title_pad = VInt 5, title_border_kwargs = [],
      spines = [(''left'', True), (''right'', True), (''bottom'', True), (''top'', True)],
      xaxis_visible = True, yaxis_visible = True,
      patch_alpha = VNone, patch_facecolor = VStr ''white'',
      legend_dict = [], colorbar_dict = [], legend_attr = None, removed = []\<rparr>"

definition subplot_at :: "int \<times> int \<times> int \<times> int \<Rightarrow> axes" where
  "subplot_at ss = example_axes\<lparr>subplotspec := Some ss\<rparr>"

text \<open>Two subplots in the same cell; a row of two subplots; a column of two subplots.\<close>

definition same_cell_figure :: store where
  "same_cell_figure = (\<lambda>_. example_axes)(1 := subplot_at (0, 0, 0, 0), 2 := subplot_at (0, 0, 0, 0))"

definition row_figure :: store where
  "row_figure = (\<lambda>_. example_axes)(1 := subplot_at (0, 0, 0, 0), 2 := subplot_at (0, 0, 1, 1))"

definition column_figure :: store where
  "column_figure = (\<lambda>_. example_axes)(1 := subplot_at (0, 0, 0, 0), 2 := subplot_at (1, 1, 0, 0))"


text \<open>
  A main axes 1 with one top panel 2; a main axes 1 with left panels 3 (hidden) and 4
  beside a sibling 2 with the left panels 5 and 6.
\<close>

definition panel_figure :: store where
  "panel_figure =
     (\<lambda>_. example_axes)
       (1 := (subplot_at (0, 0, 0, 0))\<lparr>panel_dict := (\<lambda>_. [])(STop := [2])\<rparr>,
        2 := example_axes\<lparr>panel_side := Some STop\<rparr>)"

definition uneven_figure :: store where
  "uneven_figure =
     (\<lambda>_. example_axes)
       (1 := (subplot_at (0, 0, 0, 0))\<lparr>panel_dict := (\<lambda>_. [])(SLeft := [3, 4])\<rparr>,
        2 := (subplot_at (0, 0, 1, 1))\<lparr>panel_dict := (\<lambda>_. [])(SLeft := [5, 6])\<rparr>,
        3 := example_axes\<lparr>panel_side := Some SLeft, panel_hidden := True\<rparr>,
        4 := example_axes\<lparr>panel_side := Some SLeft\<rparr>,
        5 := example_axes\<lparr>panel_side := Some SLeft\<rparr>,
        6 := example_axes\<lparr>panel_side := Some SLeft\<rparr>)"

text \<open>Axes with titles, with and without a top panel, and an environment for them.\<close>

definition with_title :: "slot \<Rightarrow> string \<Rightarrow> axes \<Rightarrow> axes" where
  "with_title s t ax = ax\<lparr>title_dict := (title_dict ax)(s := (title_dict ax s)\<lparr>text_str := t\<rparr>)\<rparr>"

definition hello_figure :: store where
  "hello_figure = (\<lambda>_. example_axes)(1 := with_title TCenter ''Hello'' example_axes)"

definition space_figure :: store where
  "space_figure =
     (\<lambda>_. example_axes)
       (1 := with_title TCenter '' '' example_axes,
        2 := with_title TCenter ''old'' example_axes)"

definition top_panel_figure :: "pyval \<Rightarrow> bool \<Rightarrow> string \<Rightarrow> string \<Rightarrow> store" where
  "top_panel_figure abv hidden main_title panel_title =
     (\<lambda>_. example_axes)
       (1 := with_title TCenter main_title
               (example_axes\<lparr>panel_dict := (\<lambda>_. [])(STop := [2]), title_above := abv\<rparr>),
        2 := with_title TCenter panel_title
               (example_axes\<lparr>panel_side := Some STop, panel_hidden := hidden\<rparr>))"

definition example_env :: env where
  "example_env =
     \<lparr>translate_loc =
        (\<lambda>v. case v of
               VNone \<Rightarrow> Inr None
             | VStr n \<Rightarrow>
                 (case map_of (map (\<lambda>s. (slot_name s, s))
                         [Abc, TLeft, TCenter, TRight, UpperLeft, UpperCenter, UpperRight,
                          LowerLeft, LowerCenter, LowerRight]) n of
                    None \<Rightarrow> Inl KeyError
                  | Some s \<Rightarrow> Inr (Some s))
             | _ \<Rightarrow> Inl KeyError),
      is_property = (\<lambda>key. key \<in> set [''color'', ''size'', ''weight'', ''family'', ''alpha''])\<rparr>"

definition example_rc :: rc_context where
  "example_rc =
     \<lparr>rc_title_fill = [], rc_title_border_fill = [], rc_abc_titlepad = VNone,
      rc_title_pad = VNone, rc_title_loc = VNone\<rparr>"

definition red_kw :: kw where
  "red_kw = \<lparr>kw_text = None, kw_props = [(''color'', VStr ''red'')]\<rparr>"



definition example_drawer :: "artist \<Rightarrow> drawer" where
  "example_drawer a = (\<lambda>ax handles labels loc kwargs. Inr (Single a, ax))"

text \<open>
  An axes whose key \<^verbatim>\<open>'upper right'\<close> holds a multi-row legend; an axes where it holds a
  queued entry; and a left panel whose key \<^verbatim>\<open>'left'\<close> holds a drawn legend, its
  \<^verbatim>\<open>legend_\<close>.
\<close>

definition tuple_axes :: axes where
  "tuple_axes = example_axes\<lparr>legend_dict := [(''upper right'', Done (Multiple [7, 8]))]\<rparr>"

definition pending_axes :: axes where
  "pending_axes =
     example_axes\<lparr>legend_dict := [(''upper right'', Queued [0] [''z''] Map.empty)]\<rparr>"

definition panel_legend_axes :: axes where
  "panel_legend_axes =
     example_axes\<lparr>panel_side := Some SLeft, legend_dict := [(''left'', Done (Single 7))],
                  legend_attr := Some 7\<rparr>"

text \<open>
  Overrides with a key that no text object accepts, with the pseudo property
  \<^verbatim>\<open>border\<close>, and with a \<^verbatim>\<open>text\<close> entry.
\<close>

definition foo_kw :: kw where
  "foo_kw = \<lparr>kw_text = None, kw_props = [(''foo'', VInt 1)]\<rparr>"

definition border_kw :: kw where
  "border_kw = \<lparr>kw_text = None, kw_props = [(''border'', VBool True)]\<rparr>"

definition text_kw :: kw where
  "text_kw = \<lparr>kw_text = Some ''Bye'', kw_props = []\<rparr>"

section \<open>A-b-c labels: the sequence\<close>

lemma find_is_aA_sat: "find is_aA s = Some c \<Longrightarrow> is_aA c \<and> c \<in> set s"
  by (induction s) (auto split: if_splits)

lemma replace_first_find:
  "find is_aA s = Some c \<Longrightarrow>
   replace_first c new s =
     takeWhile (\<lambda>x. \<not> is_aA x) s @ new @ tl (dropWhile (\<lambda>x. \<not> is_aA x) s)"
proof (induction s)
  case Nil
  then show ?case by simp
next
  case (Cons a s)
  show ?case
  proof (cases "is_aA a")
    case True
    with Cons.prems show ?thesis by simp
  next
    case False
    with Cons.prems have f: "find is_aA s = Some c" by simp
    from find_is_aA_sat[OF f] False have "a \<noteq> c" by auto
    with False Cons.IH[OF f] show ?thesis by simp
  qed
qed

text \<open>
  C10. For a style string whose first \<open>a\<close> or \<open>A\<close> is \<open>c\<close> and an axes number
  \<open>n \<ge> 1\<close>, the label is the style string with that first letter replaced by
  \<open>(n - 1) div 26 + 1\<close> copies of letter \<open>(n - 1) mod 26\<close> of the alphabet, in upper case
  when \<open>c\<close> is \<open>A\<close>. The witness shows numbers 27 and 28 giving \<open>aa\<close> and \<open>bb\<close>.
\<close>

theorem abc_label_sequence:
  assumes "1 \<le> n" and "find is_aA style = Some c"
  shows "abc_label (VStr style) (Some n) =
     Inr (Some (takeWhile (\<lambda>x. \<not> is_aA x) style
        @ (let new = replicate (nat ((n - 1) div 26 + 1)) (ABC_STRING ! nat ((n - 1) mod 26))
           in if c = CHR ''A'' then upper new else new)
        @ tl (dropWhile (\<lambda>x. \<not> is_aA x) style)))"
proof -
  from find_is_aA_sat[OF assms(2)] have m: "is_aA c" "c \<in> set style" by auto
  then have ne: "style \<noteq> []" and has: "CHR ''a'' \<in> set style \<or> CHR ''A'' \<in> set style"
    by (auto simp: is_aA_def)
  show ?thesis
    using ne has assms(2)
    by (auto simp: abc_label_def Let_def replace_first_find)
qed

theorem abc_label_sequence_witness:
  "abc_label (VStr ''a'') (Some 27) = Inr (Some ''aa'') \<and>
   abc_label (VStr ''a'') (Some 28) = Inr (Some ''bb'') \<and>
   abc_label (VStr ''(A)'') (Some 28) = Inr (Some ''(BB)'')"
  using abc_label_sequence[of 27 "''a''" "CHR ''a''"]
        abc_label_sequence[of 28 "''a''" "CHR ''a''"]
        abc_label_sequence[of 28 "''(A)''" "CHR ''A''"]
  by (simp add: is_aA_def ABC_STRING_def upper_def upper_char_def eval_nat_numeral)

section \<open>Share targets: the reference axes\<close>

lemma same_range_ok:
  "\<forall>a\<in>set as. subplotspec (st a) \<noteq> None \<Longrightarrow>
   same_range st x irange as = Inr (filter (\<lambda>a. range_subplotspec (st a) x = Inr irange) as)"
  by (induction as) (auto simp: range_subplotspec_def split: prod.splits)

lemma extents_ok:
  "\<forall>a\<in>set as. subplotspec (st a) \<noteq> None \<Longrightarrow>
   extents st (if x = X then Y else X) (if x = X then 0 else 1) as = Inr (map (share_key st x) as)"
  by (induction as) (auto simp: range_subplotspec_def share_key_def split: prod.splits)

lemma takeWhile_stops: "x \<in> set xs \<Longrightarrow> \<not> P x \<Longrightarrow> length (takeWhile P xs) < length xs"
  by (induction xs) auto

lemma argmax_first:
  assumes "vs \<noteq> []"
  shows "argmax vs < length vs" "vs ! argmax vs = Max (set vs)"
    "\<forall>j<argmax vs. vs ! j \<noteq> Max (set vs)"
proof -
  let ?P = "\<lambda>v. v \<noteq> Max (set vs)"
  have "Max (set vs) \<in> set vs" using assms by (simp add: Max_in)
  then show lt: "argmax vs < length vs"
    unfolding argmax_def by (rule takeWhile_stops) simp
  from nth_length_takeWhile[of ?P vs] lt show "vs ! argmax vs = Max (set vs)"
    unfolding argmax_def by auto
  show "\<forall>j<argmax vs. vs ! j \<noteq> Max (set vs)"
    unfolding argmax_def
    by (metis (mono_tags, lifting) nth_mem set_takeWhileD takeWhile_nth)
qed

lemma argmin_first:
  assumes "vs \<noteq> []"
  shows "argmin vs < length vs" "vs ! argmin vs = Min (set vs)"
    "\<forall>j<argmin vs. vs ! j \<noteq> Min (set vs)"
proof -
  let ?P = "\<lambda>v. v \<noteq> Min (set vs)"
  have "Min (set vs) \<in> set vs" using assms by (simp add: Min_in)
  then show lt: "argmin vs < length vs"
    unfolding argmin_def by (rule takeWhile_stops) simp
  from nth_length_takeWhile[of ?P vs] lt show "vs ! argmin vs = Min (set vs)"
    unfolding argmin_def by auto
  show "\<forall>j<argmin vs. vs ! j \<noteq> Min (set vs)"
    unfolding argmin_def
    by (metis (mono_tags, lifting) nth_mem set_takeWhileD takeWhile_nth)
qed

lemma pop_first_set: "i < length xs \<Longrightarrow> set (pop_first i xs) = set xs"
  unfolding pop_first_def
  by (metis Cons_nth_drop_Suc append_take_drop_id list.simps(15) set_append Un_insert_right)

lemma pop_first_distinct: "i < length xs \<Longrightarrow> distinct xs \<Longrightarrow> distinct (pop_first i xs)"
  unfolding pop_first_def
  by (metis Cons_nth_drop_Suc append_take_drop_id distinct.simps(2) distinct_append
      disjoint_insert(1) list.simps(15) Un_iff set_append)


lemma remdups_is_set_order: "is_set_order remdups"
  by (simp add: is_set_order_def)

lemma get_share_axes_ok:
  assumes so: "is_set_order set_order"
    and sub: "\<forall>a\<in>set (self # iter_axes). subplotspec (st a) \<noteq> None"
  shows "get_share_axes set_order iter_axes st self x =
     Inr (pop_first ((if x = X then argmax else argmin)
            (map (share_key st x) (share_candidates set_order iter_axes st self x)))
          (share_candidates set_order iter_axes st self x))"
proof -
  from sub obtain ss where ss: "subplotspec (st self) = Some ss" by auto
  obtain irange where ir: "range_subplotspec (st self) x = Inr irange"
    using ss by (cases ss) (auto simp: range_subplotspec_def)
  from sub have sub': "\<forall>a\<in>set iter_axes. subplotspec (st a) \<noteq> None" by simp
  let ?axs = "filter (\<lambda>a. range_subplotspec (st a) x = Inr irange) iter_axes"
  have c: "share_candidates set_order iter_axes st self x = set_order (self # ?axs)"
    by (simp add: share_candidates_def ir)
  from so have "set (set_order (self # ?axs)) = set (self # ?axs)"
    by (simp add: is_set_order_def)
  with sub have "\<forall>a\<in>set (set_order (self # ?axs)). subplotspec (st a) \<noteq> None"
    by auto
  note ex = extents_ok[OF this, of x]
  show ?thesis
    unfolding c
    using ex by (simp add: get_share_axes_def ss ir same_range_ok[OF sub'] Let_def)
qed

lemma share_candidates_set:
  assumes "is_set_order set_order"
  shows "distinct (share_candidates set_order iter_axes st self x)"
    and "set (share_candidates set_order iter_axes st self x) =
      insert self {a \<in> set iter_axes. range_subplotspec (st a) x = range_subplotspec (st self) x}"
  using assms by (auto simp: share_candidates_def is_set_order_def)

text \<open>
  C1 (as the code has it). The source has no ambiguity error: when two or more candidates
  sit at the same extreme position (the greatest first row for \<open>X\<close>, the least last column
  for \<open>Y\<close>), the call returns normally, and the reference is the first of them in the
  order in which the candidate set is enumerated; the others follow it in that order.
\<close>

theorem get_share_axes_tie_takes_first:
  assumes so: "is_set_order set_order"
    and sub: "\<forall>a\<in>set (self # iter_axes). subplotspec (st a) \<noteq> None"
    and tie: "a \<in> set (share_candidates set_order iter_axes st self x)"
      "b \<in> set (share_candidates set_order iter_axes st self x)"
      "a \<noteq> b" "share_key st x a = share_key st x b"
    and extreme: "\<forall>c\<in>set (share_candidates set_order iter_axes st self x).
      if x = X then share_key st x c \<le> share_key st x a else share_key st x a \<le> share_key st x c"
  shows "\<exists>i<length (share_candidates set_order iter_axes st self x).
      get_share_axes set_order iter_axes st self x =
        Inr (share_candidates set_order iter_axes st self x ! i
             # take i (share_candidates set_order iter_axes st self x)
             @ drop (Suc i) (share_candidates set_order iter_axes st self x))
      \<and> share_key st x (share_candidates set_order iter_axes st self x ! i) = share_key st x a
      \<and> (\<forall>j<i. share_key st x (share_candidates set_order iter_axes st self x ! j) \<noteq> share_key st x a)"
proof -
  let ?c = "share_candidates set_order iter_axes st self x"
  let ?vs = "map (share_key st x) ?c"
  from tie(1) have ne: "?vs \<noteq> []" by auto
  show ?thesis
  proof (cases "x = X")
    case True
    have "Max (set ?vs) = share_key st x a"
      using tie(1) extreme True by (intro Max_eqI) auto
    with argmax_first[OF ne] get_share_axes_ok[OF so sub, of x] True
    show ?thesis
      by (intro exI[of _ "argmax ?vs"]) (auto simp: pop_first_def)
  next
    case False
    have "Min (set ?vs) = share_key st x a"
      using tie(1) extreme False by (intro Min_eqI) auto
    with argmin_first[OF ne] get_share_axes_ok[OF so sub, of x] False
    show ?thesis
      by (intro exI[of _ "argmin ?vs"]) (auto simp: pop_first_def)
  qed
qed

theorem get_share_axes_tie_takes_first_witness:
  "get_share_axes remdups [1, 2] same_cell_figure 1 Y = Inr [1, 2]"
proof -
  let ?c = "share_candidates remdups [1, 2] same_cell_figure 1 Y"
  have c: "?c = [1, 2]"
    by (simp add: share_candidates_def same_cell_figure_def)
  have sub: "\<forall>a\<in>set (1 # [1, 2]). subplotspec (same_cell_figure a) \<noteq> None"
    by (simp add: same_cell_figure_def subplot_at_def)
  have k: "share_key same_cell_figure Y 1 = share_key same_cell_figure Y 2"
    by (simp add: share_key_def same_cell_figure_def subplot_at_def)
  have ex: "\<forall>c\<in>set ?c. if Y = X then share_key same_cell_figure Y c \<le> share_key same_cell_figure Y 1
      else share_key same_cell_figure Y 1 \<le> share_key same_cell_figure Y c"
    unfolding c by (simp add: share_key_def same_cell_figure_def subplot_at_def)
  from get_share_axes_tie_takes_first[OF remdups_is_set_order sub _ _ _ k ex]
  obtain i where i: "i < length ?c"
      "get_share_axes remdups [1, 2] same_cell_figure 1 Y = Inr (?c ! i # take i ?c @ drop (Suc i) ?c)"
      "\<forall>j<i. share_key same_cell_figure Y (?c ! j) \<noteq> share_key same_cell_figure Y 1"
    unfolding c by auto
  from i(3) have "i = 0" unfolding c by (cases i) auto
  with i(2) show ?thesis unfolding c by simp
qed

text \<open>
  C1 as stated fails: with two subplots in one grid cell the call does not raise, it returns
  the list headed by the first of them.
\<close>

theorem get_share_axes_tie_counterexample:
  "get_share_axes remdups [1, 2] same_cell_figure 1 X = Inr [1, 2]"
  by (simp add: get_share_axes_def same_cell_figure_def subplot_at_def example_axes_def
      range_subplotspec_def argmax_def pop_first_def)

text \<open>
  C2 (as the code has it). For a subplot in a figure whose iterated axes are subplots, the
  call returns a list without repetitions of exactly this axes and the iterated axes whose
  range along \<open>x\<close> (columns for \<open>X\<close>, rows for \<open>Y\<close>) equals its own. Its head is the
  reference: for \<open>X\<close> no other axes of the list starts at a greater row (the bottommost),
  for \<open>Y\<close> no other axes of the list ends at a smaller column (the leftmost).
\<close>

theorem get_share_axes_reference:
  assumes so: "is_set_order set_order"
    and sub: "\<forall>a\<in>set (self # iter_axes). subplotspec (st a) \<noteq> None"
  shows "\<exists>pax rest.
      get_share_axes set_order iter_axes st self x = Inr (pax # rest)
      \<and> distinct (pax # rest)
      \<and> set (pax # rest) =
          insert self {a \<in> set iter_axes. range_subplotspec (st a) x = range_subplotspec (st self) x}
      \<and> (x = X \<longrightarrow> (\<forall>a\<in>set rest. share_key st X a \<le> share_key st X pax))
      \<and> (x = Y \<longrightarrow> (\<forall>a\<in>set rest. share_key st Y pax \<le> share_key st Y a))"
proof -
  let ?c = "share_candidates set_order iter_axes st self x"
  let ?vs = "map (share_key st x) ?c"
  let ?i = "(if x = X then argmax else argmin) ?vs"
  have "self \<in> set ?c" using share_candidates_set(2)[OF so] by simp
  then have ne: "?vs \<noteq> []" by auto
  have lt: "?i < length ?c"
    using argmax_first(1)[OF ne] argmin_first(1)[OF ne] by (cases "x = X") simp_all
  have res: "get_share_axes set_order iter_axes st self x = Inr (pop_first ?i ?c)"
    by (rule get_share_axes_ok[OF so sub])
  have d: "distinct (pop_first ?i ?c)"
    by (rule pop_first_distinct[OF lt share_candidates_set(1)[OF so]])
  have s: "set (pop_first ?i ?c) =
      insert self {a \<in> set iter_axes. range_subplotspec (st a) x = range_subplotspec (st self) x}"
    using pop_first_set[OF lt] share_candidates_set(2)[OF so] by simp
  have rest: "set (take ?i ?c @ drop (Suc ?i) ?c) \<subseteq> set ?c"
    by (auto dest: in_set_takeD in_set_dropD)
  have mx: "x = X \<Longrightarrow> \<forall>a\<in>set ?c. share_key st X a \<le> share_key st X (?c ! ?i)"
  proof -
    assume x: "x = X"
    have "share_key st X (?c ! ?i) = Max (set ?vs)"
      using argmax_first(2)[OF ne] lt x by simp
    then show ?thesis using x by simp
  qed
  have mn: "x = Y \<Longrightarrow> \<forall>a\<in>set ?c. share_key st Y (?c ! ?i) \<le> share_key st Y a"
  proof -
    assume x: "x = Y"
    have "share_key st Y (?c ! ?i) = Min (set ?vs)"
      using argmin_first(2)[OF ne] lt x by simp
    then show ?thesis using x by simp
  qed
  show ?thesis
    apply (rule exI[of _ "?c ! ?i"])
    apply (rule exI[of _ "take ?i ?c @ drop (Suc ?i) ?c"])
    using res d s rest mx mn unfolding pop_first_def by blast
qed

theorem get_share_axes_reference_witness:
  "get_share_axes remdups [1, 2] row_figure 2 Y = Inr [1, 2] \<and>
   (\<exists>pax rest.
      get_share_axes remdups [1, 2] column_figure 1 X = Inr (pax # rest)
      \<and> distinct (pax # rest)
      \<and> set (pax # rest) =
          insert 1 {a \<in> set [1, 2]. range_subplotspec (column_figure a) X
                                  = range_subplotspec (column_figure 1) X}
      \<and> (X = X \<longrightarrow> (\<forall>a\<in>set rest. share_key column_figure X a \<le> share_key column_figure X pax))
      \<and> (X = Y \<longrightarrow> (\<forall>a\<in>set rest. share_key column_figure Y pax \<le> share_key column_figure Y a)))"
proof
  show "get_share_axes remdups [1, 2] row_figure 2 Y = Inr [1, 2]"
    by (simp add: get_share_axes_def row_figure_def subplot_at_def example_axes_def
        range_subplotspec_def argmin_def pop_first_def)
next
  have sub: "\<forall>a\<in>set (1 # [1, 2]). subplotspec (column_figure a) \<noteq> None"
    by (simp add: column_figure_def subplot_at_def)
  show "\<exists>pax rest.
      get_share_axes remdups [1, 2] column_figure 1 X = Inr (pax # rest)
      \<and> distinct (pax # rest)
      \<and> set (pax # rest) =
          insert 1 {a \<in> set [1, 2]. range_subplotspec (column_figure a) X
                                  = range_subplotspec (column_figure 1) X}
      \<and> (X = X \<longrightarrow> (\<forall>a\<in>set rest. share_key column_figure X a \<le> share_key column_figure X pax))
      \<and> (X = Y \<longrightarrow> (\<forall>a\<in>set rest. share_key column_figure Y pax \<le> share_key column_figure Y a))"
    by (rule get_share_axes_reference[OF remdups_is_set_order sub])
qed

text \<open>
  C2 as stated fails. In a row of two subplots the x-reference of the right one is itself,
  not the subplot to its left, which is not even in the list; in a column of two subplots
  the x-reference of the top one is the bottom one. For \<open>Y\<close> it is the other way round:
  the top subplot of a column is alone, and the left subplot of a row is the reference.
\<close>

theorem get_share_axes_leftmost_counterexample:
  "get_share_axes remdups [1, 2] row_figure 2 X = Inr [2] \<and>
   get_share_axes remdups [1, 2] column_figure 1 X = Inr [2, 1] \<and>
   get_share_axes remdups [1, 2] column_figure 1 Y = Inr [1] \<and>
   get_share_axes remdups [1, 2] row_figure 1 Y = Inr [1, 2]"
  by (simp add: get_share_axes_def row_figure_def column_figure_def subplot_at_def
      example_axes_def range_subplotspec_def argmax_def argmin_def pop_first_def)

section \<open>Panels: short-axis sharing and hiding\<close>

lemma nth_not_in_take:
  "distinct xs \<Longrightarrow> k \<le> i \<Longrightarrow> i < length xs \<Longrightarrow> xs ! i \<notin> set (take k xs)"
  by (auto simp: in_set_conv_nth nth_eq_iff_index_eq)

lemma zip_calls_fst: "fst ` set (map (\<lambda>(c, p). (c, a, p)) (zip xs ys)) = set (take (length ys) xs)"
proof -
  have "fst ` set (map (\<lambda>(c, p). (c, a, p)) (zip xs ys)) = set (map fst (zip xs ys))"
    by force
  moreover have "take (min (length xs) (length ys)) xs = take (length ys) xs"
    by (simp add: min_def)
  ultimately show ?thesis by (simp add: map_fst_zip_take)
qed

lemma zip_calls_snd:
  "(snd \<circ> snd) ` set (map (\<lambda>(c, p). (c, a, p)) (zip xs ys)) = set (take (length xs) ys)"
proof -
  have "(snd \<circ> snd) ` set (map (\<lambda>(c, p). (c, a, p)) (zip xs ys)) = set (map snd (zip xs ys))"
    by force
  moreover have "take (min (length xs) (length ys)) ys = take (length xs) ys"
    by (simp add: min_def)
  ultimately show ?thesis by (simp add: map_snd_zip_take)
qed

text \<open>
  C8. For a main axes and a sibling: let \<open>caxs\<close> and \<open>paxs\<close> be the panels of their stacks
  on one side that are not hidden, in stack order (inside to outside), \<open>m\<close> and \<open>n\<close> of
  them, each list without repetitions. The walk makes exactly \<open>min m n\<close> calls, the
  \<open>i\<close>-th of them sharing the \<open>i\<close>-th panel of \<open>caxs\<close> with the \<open>i\<close>-th panel of
  \<open>paxs\<close>; a panel beyond position \<open>min m n\<close> of either list is neither the child nor the
  parent of any call, and a hidden panel takes part in no call.
\<close>

theorem share_short_axis_truncates:
  assumes main: "panel_side (st self) = None"
    and dc: "distinct (filter (\<lambda>p. \<not> panel_hidden (st p)) (panel_dict (st self) sd))"
    and dp: "distinct (filter (\<lambda>p. \<not> panel_hidden (st p)) (panel_dict (st sib) sd))"
  shows "let caxs = filter (\<lambda>p. \<not> panel_hidden (st p)) (panel_dict (st self) sd);
             paxs = filter (\<lambda>p. \<not> panel_hidden (st p)) (panel_dict (st sib) sd);
             k = min (length caxs) (length paxs);
             calls = share_short_axis st self (Some sib) sd
         in length calls = k
          \<and> (\<forall>i<k. calls ! i = (caxs ! i, (if sd = SLeft \<or> sd = SRight then X else Y), paxs ! i))
          \<and> (\<forall>i. k \<le> i \<and> i < length caxs \<longrightarrow> caxs ! i \<notin> fst ` set calls)
          \<and> (\<forall>i. k \<le> i \<and> i < length paxs \<longrightarrow> paxs ! i \<notin> (snd \<circ> snd) ` set calls)
          \<and> (\<forall>p. panel_hidden (st p) \<longrightarrow>
                p \<notin> fst ` set calls \<and> p \<notin> (snd \<circ> snd) ` set calls)"
proof -
  let ?c = "filter (\<lambda>p. \<not> panel_hidden (st p)) (panel_dict (st self) sd)"
  let ?p = "filter (\<lambda>p. \<not> panel_hidden (st p)) (panel_dict (st sib) sd)"
  let ?a = "if sd = SLeft \<or> sd = SRight then X else Y"
  have calls: "share_short_axis st self (Some sib) sd = map (\<lambda>(c, p). (c, ?a, p)) (zip ?c ?p)"
    using main by (simp add: share_short_axis_def visible_panels_def Let_def)
  have 1: "length (map (\<lambda>(c, p). (c, ?a, p)) (zip ?c ?p)) = min (length ?c) (length ?p)" by simp
  have 2: "\<forall>i<min (length ?c) (length ?p).
      map (\<lambda>(c, p). (c, ?a, p)) (zip ?c ?p) ! i = (?c ! i, ?a, ?p ! i)" by simp
  have 3: "\<forall>i. min (length ?c) (length ?p) \<le> i \<and> i < length ?c \<longrightarrow>
      ?c ! i \<notin> fst ` set (map (\<lambda>(c, p). (c, ?a, p)) (zip ?c ?p))"
    unfolding zip_calls_fst using nth_not_in_take[OF dc] by (auto simp: min_def split: if_splits)
  have 4: "\<forall>i. min (length ?c) (length ?p) \<le> i \<and> i < length ?p \<longrightarrow>
      ?p ! i \<notin> (snd \<circ> snd) ` set (map (\<lambda>(c, p). (c, ?a, p)) (zip ?c ?p))"
    unfolding zip_calls_snd using nth_not_in_take[OF dp] by (auto simp: min_def split: if_splits)
  have 5: "\<forall>p. panel_hidden (st p) \<longrightarrow>
      p \<notin> fst ` set (map (\<lambda>(c, p). (c, ?a, p)) (zip ?c ?p))
      \<and> p \<notin> (snd \<circ> snd) ` set (map (\<lambda>(c, p). (c, ?a, p)) (zip ?c ?p))"
    unfolding zip_calls_fst zip_calls_snd by (auto dest: in_set_takeD)
  show ?thesis unfolding Let_def calls using 1 2 3 4 5 by blast
qed

theorem share_short_axis_truncates_witness:
  "panel_dict (uneven_figure 1) SLeft = [3, 4]
   \<and> panel_dict (uneven_figure 2) SLeft = [5, 6]
   \<and> panel_hidden (uneven_figure 3)
   \<and> share_short_axis uneven_figure 1 (Some 2) SLeft = [(4, X, 5)]
   \<and> 6 \<notin> (snd \<circ> snd) ` set (share_short_axis uneven_figure 1 (Some 2) SLeft)
   \<and> 3 \<notin> fst ` set (share_short_axis uneven_figure 1 (Some 2) SLeft)"
proof -
  have s1: "panel_dict (uneven_figure 1) SLeft = [3, 4]"
    and s2: "panel_dict (uneven_figure 2) SLeft = [5, 6]"
    and h: "panel_hidden (uneven_figure 3)"
    by (simp_all add: uneven_figure_def subplot_at_def example_axes_def)
  have v1: "filter (\<lambda>p. \<not> panel_hidden (uneven_figure p)) (panel_dict (uneven_figure 1) SLeft) = [4]"
    and v2: "filter (\<lambda>p. \<not> panel_hidden (uneven_figure p)) (panel_dict (uneven_figure 2) SLeft) = [5, 6]"
    by (simp_all add: uneven_figure_def subplot_at_def example_axes_def)
  have m: "panel_side (uneven_figure 1) = None"
    by (simp add: uneven_figure_def subplot_at_def example_axes_def)
  have d1: "distinct (filter (\<lambda>p. \<not> panel_hidden (uneven_figure p)) (panel_dict (uneven_figure 1) SLeft))"
    and d2: "distinct (filter (\<lambda>p. \<not> panel_hidden (uneven_figure p)) (panel_dict (uneven_figure 2) SLeft))"
    unfolding v1 v2 by simp_all
  have e: "\<exists>i\<ge>Suc 0. i < Suc (Suc 0)" by (rule exI[of _ "Suc 0"]) simp
  note T = share_short_axis_truncates[OF m d1 d2, unfolded Let_def v1 v2]
  from T have len: "length (share_short_axis uneven_figure 1 (Some 2) SLeft) = 1"
    and first: "share_short_axis uneven_figure 1 (Some 2) SLeft ! 0 = (4, X, 5)"
    by simp_all
  from T e have excess: "6 \<notin> (snd \<circ> snd) ` set (share_short_axis uneven_figure 1 (Some 2) SLeft)"
    by (simp add: nth_Cons')
  from T h have hidden: "3 \<notin> fst ` set (share_short_axis uneven_figure 1 (Some 2) SLeft)"
    by blast
  from len first have "share_short_axis uneven_figure 1 (Some 2) SLeft = [(4, X, 5)]"
    by (cases "share_short_axis uneven_figure 1 (Some 2) SLeft") auto
  with s1 s2 h excess hidden show ?thesis by simp
qed

text \<open>
  C9 (as the code has it). Hiding a panel sets the hidden flag, makes every spine and both
  axis objects invisible, and sets the background patch to zero opacity and to the face
  colour \<^verbatim>\<open>'none'\<close>. Nothing else changes: the other fields of the panel (its title
  slots and its place in the grid among them) and every other axes, so every panel stack,
  are as before.
\<close>

theorem hide_panel_frame:
  "panel_hidden (hide_panel st p p)
   \<and> map snd (spines (hide_panel st p p)) = replicate (length (spines (st p))) False
   \<and> map fst (spines (hide_panel st p p)) = map fst (spines (st p))
   \<and> \<not> xaxis_visible (hide_panel st p p)
   \<and> \<not> yaxis_visible (hide_panel st p p)
   \<and> patch_alpha (hide_panel st p p) = VInt 0
   \<and> patch_facecolor (hide_panel st p p) = VStr ''none''
   \<and> (hide_panel st p p)\<lparr>spines := spines (st p), xaxis_visible := xaxis_visible (st p),
        yaxis_visible := yaxis_visible (st p), patch_alpha := patch_alpha (st p),
        patch_facecolor := patch_facecolor (st p), panel_hidden := panel_hidden (st p)\<rparr> = st p
   \<and> (\<forall>q. q \<noteq> p \<longrightarrow> hide_panel st p q = st q)
   \<and> (\<forall>q. panel_dict (hide_panel st p q) = panel_dict (st q))
   \<and> subplotspec (hide_panel st p p) = subplotspec (st p)
   \<and> title_dict (hide_panel st p p) = title_dict (st p)"
proof -
  have "map snd (map (\<lambda>(name, visible). (name, False)) xs) = replicate (length xs) False"
    for xs :: "(string \<times> bool) list"
    by (induction xs) auto
  moreover have "map fst (map (\<lambda>(name, visible). (name, False)) xs) = map fst xs"
    for xs :: "(string \<times> bool) list"
    by (induction xs) auto
  ultimately show ?thesis by (simp add: hide_panel_def)
qed

theorem hide_panel_frame_witness:
  "panel_hidden (hide_panel panel_figure 2 2)
   \<and> spines (hide_panel panel_figure 2 2) =
       [(''left'', False), (''right'', False), (''bottom'', False), (''top'', False)]
   \<and> panel_dict (hide_panel panel_figure 2 1) STop = [2]
   \<and> hide_panel panel_figure 2 1 = panel_figure 1"
  using hide_panel_frame[of panel_figure 2]
  by (simp add: hide_panel_def panel_figure_def example_axes_def subplot_at_def)

text \<open>
  C9 as stated fails: besides the opacity, the face colour of the background patch changes.
\<close>

theorem hide_panel_facecolor_counterexample:
  "patch_facecolor (panel_figure 2) = VStr ''white'' \<and>
   patch_facecolor (hide_panel panel_figure 2 2) = VStr ''none''"
  by (simp add: hide_panel_def panel_figure_def example_axes_def)


section \<open>Title slots: transfer and arbitration\<close>

lemma transfer_text_diff:
  assumes "a \<noteq> b"
  shows "transfer_text st (a, n) (b, m) =
     st(a := (st a)\<lparr>title_dict := (title_dict (st a))(n := moved_src (title_dict (st a) n))\<rparr>,
        b := (st b)\<lparr>title_dict := (title_dict (st b))
                (m := moved_dest (title_dict (st a) n) (title_dict (st b) m))\<rparr>)"
  using assms
  by (auto simp: transfer_text_def get_text_def put_text_def Let_def moved_src_def moved_dest_def
      fun_upd_twist)

lemma transfer_text_other_slot:
  "k \<noteq> n \<Longrightarrow> title_dict (transfer_text st (a, n) (b, n) q) k = title_dict (st q) k"
  by (simp add: transfer_text_def get_text_def put_text_def Let_def)

lemma transfer_text_fields:
  "(transfer_text st src dest q)\<lparr>title_dict := title_dict (st q)\<rparr> = st q"
  by (cases src; cases dest) (simp add: transfer_text_def get_text_def put_text_def Let_def)

lemma fold_transfer_diff:
  assumes "a \<noteq> b" and "distinct names"
  shows "fold (\<lambda>name st. transfer_text st (a, name) (b, name)) names st =
     st(a := (st a)\<lparr>title_dict :=
               (\<lambda>n. if n \<in> set names then moved_src (title_dict (st a) n)
                    else title_dict (st a) n)\<rparr>,
        b := (st b)\<lparr>title_dict :=
               (\<lambda>n. if n \<in> set names
                    then moved_dest (title_dict (st a) n) (title_dict (st b) n)
                    else title_dict (st b) n)\<rparr>)"
  using assms(2)
proof (induction names arbitrary: st)
  case Nil
  show ?case by simp
next
  case (Cons x xs)
  from Cons.prems have d: "distinct xs" and nx: "x \<notin> set xs" by auto
  let ?F = "\<lambda>name st. transfer_text st (a, name) (b, name)"
  let ?s1 = "transfer_text st (a, x) (b, x)"
  have "fold ?F (x # xs) st = fold ?F xs ?s1" by simp
  also have "\<dots> =
     ?s1(a := (?s1 a)\<lparr>title_dict :=
               (\<lambda>n. if n \<in> set xs then moved_src (title_dict (?s1 a) n)
                    else title_dict (?s1 a) n)\<rparr>,
        b := (?s1 b)\<lparr>title_dict :=
               (\<lambda>n. if n \<in> set xs
                    then moved_dest (title_dict (?s1 a) n) (title_dict (?s1 b) n)
                    else title_dict (?s1 b) n)\<rparr>)"
    by (rule Cons.IH[OF d])
  also have "\<dots> =
     st(a := (st a)\<lparr>title_dict :=
               (\<lambda>n. if n \<in> set (x # xs) then moved_src (title_dict (st a) n)
                    else title_dict (st a) n)\<rparr>,
        b := (st b)\<lparr>title_dict :=
               (\<lambda>n. if n \<in> set (x # xs)
                    then moved_dest (title_dict (st a) n) (title_dict (st b) n)
                    else title_dict (st b) n)\<rparr>)"
    unfolding transfer_text_diff[OF assms(1)] using assms(1) nx by (auto simp: fun_eq_iff)
  finally show ?case .
qed

lemma fold_transfer_other_slot:
  "k \<notin> set names \<Longrightarrow>
   title_dict (fold (\<lambda>name st. transfer_text st (a, name) (b, name)) names st q) k
     = title_dict (st q) k"
  by (induction names arbitrary: st) (auto simp: transfer_text_other_slot)

lemma fold_transfer_fields:
  "(fold (\<lambda>name st. transfer_text st (a, name) (b, name)) names st q)
      \<lparr>title_dict := title_dict (st q)\<rparr> = st q"
proof (induction names arbitrary: st)
  case Nil
  show ?case by simp
next
  case (Cons x xs)
  let ?s1 = "transfer_text st (a, x) (b, x)"
  let ?f = "fold (\<lambda>name st. transfer_text st (a, name) (b, name)) xs ?s1 q"
  have "?f\<lparr>title_dict := title_dict (st q)\<rparr>
      = (?f\<lparr>title_dict := title_dict (?s1 q)\<rparr>)\<lparr>title_dict := title_dict (st q)\<rparr>" by simp
  also have "\<dots> = (?s1 q)\<lparr>title_dict := title_dict (st q)\<rparr>" by (simp only: Cons.IH)
  also have "\<dots> = st q" by (rule transfer_text_fields)
  finally show ?case by simp
qed


lemma outer_names_distinct: "distinct (outer_names ax)"
  by (simp add: outer_names_def)

text \<open>
  C4 (as the code has it). For two different axes \<open>A\<close> and \<open>B\<close> and a slot holding the
  text \<open>t\<close> on \<open>A\<close>: the transfer gives the slot of \<open>B\<close> the colour and the font
  properties of the slot of \<open>A\<close>, which keeps them. If \<open>t\<close> has a character that is not
  whitespace, the slot of \<open>A\<close> is left with the empty text and the slot of \<open>B\<close> holds
  exactly \<open>t\<close>; if \<open>t\<close> is empty or whitespace only, both texts stay as they were.
\<close>

theorem transfer_text_moves:
  assumes "A \<noteq> B"
  shows "let S = get_text st (A, n);
             t = text_str S;
             st' = transfer_text st (A, n) (B, n)
         in color (get_text st' (B, n)) = color S
          \<and> fontproperties (get_text st' (B, n)) = fontproperties S
          \<and> color (get_text st' (A, n)) = color S
          \<and> fontproperties (get_text st' (A, n)) = fontproperties S
          \<and> (\<not> blank t \<longrightarrow>
                text_str (get_text st' (A, n)) = [] \<and> text_str (get_text st' (B, n)) = t)
          \<and> (blank t \<longrightarrow>
                text_str (get_text st' (A, n)) = t
                \<and> text_str (get_text st' (B, n)) = text_str (get_text st (B, n)))"
  using assms
  by (simp add: transfer_text_diff get_text_def moved_src_def moved_dest_def Let_def)

theorem transfer_text_moves_witness:
  "\<not> blank ''Hello''
   \<and> text_str (get_text hello_figure (1, TCenter)) = ''Hello''
   \<and> text_str (get_text (transfer_text hello_figure (1, TCenter) (2, TCenter)) (1, TCenter)) = []
   \<and> text_str (get_text (transfer_text hello_figure (1, TCenter) (2, TCenter)) (2, TCenter))
       = ''Hello''"
proof -
  have t: "text_str (get_text hello_figure (1, TCenter)) = ''Hello''"
    by (simp add: get_text_def hello_figure_def with_title_def)
  have nb: "\<not> blank ''Hello''" by (simp add: blank_def py_isspace_def)
  have ne: "(1::nat) \<noteq> 2" by simp
  from transfer_text_moves[OF ne, of hello_figure TCenter] t nb
  show ?thesis by (simp add: Let_def)
qed

text \<open>
  C4 as stated fails for a text of one space: the source keeps it and the destination keeps
  its own text.
\<close>

theorem transfer_text_blank_counterexample:
  "text_str (get_text space_figure (1, TCenter)) = '' ''
   \<and> text_str (get_text space_figure (2, TCenter)) = ''old''
   \<and> text_str (get_text (transfer_text space_figure (1, TCenter) (2, TCenter)) (1, TCenter))
       = '' ''
   \<and> text_str (get_text (transfer_text space_figure (1, TCenter) (2, TCenter)) (2, TCenter))
       = ''old''"
  by (simp add: transfer_text_def get_text_def put_text_def space_figure_def with_title_def
      blank_def py_isspace_def Let_def)

lemma above_title_diff:
  assumes ne: "panel_dict (st self) STop \<noteq> []"
    and pax: "pax = last (panel_dict (st self) STop)"
    and src: "src = (if title_to_panel st self pax then self else pax)"
    and dest: "dest = (if title_to_panel st self pax then pax else self)"
    and diff: "pax \<noteq> self"
  shows "above_title st self =
     st(src := (st src)\<lparr>title_dict :=
               (\<lambda>n. if n \<in> set (outer_names (st self)) then moved_src (title_dict (st src) n)
                    else title_dict (st src) n)\<rparr>,
        dest := (st dest)\<lparr>title_dict :=
               (\<lambda>n. if n \<in> set (outer_names (st self))
                    then moved_dest (title_dict (st src) n) (title_dict (st dest) n)
                    else title_dict (st dest) n),
               title_pad := title_pad (st src), abc_title_pad := abc_title_pad (st src)\<rparr>)"
proof -
  have sd: "src \<noteq> dest" using src dest diff by auto
  have u: "above_title st self =
     (let st1 = fold (\<lambda>name st. transfer_text st (src, name) (dest, name)) (outer_names (st self)) st;
          st2 = st1(dest := (st1 dest)\<lparr>title_pad := title_pad (st1 src)\<rparr>)
      in st2(dest := (st2 dest)\<lparr>abc_title_pad := abc_title_pad (st2 src)\<rparr>))"
    using ne pax src dest by (simp add: above_title_def Let_def)
  show ?thesis
    unfolding u fold_transfer_diff[OF sd outer_names_distinct] Let_def
    using sd by (auto simp: fun_eq_iff)
qed


text \<open>
  C7. For a main axes with a non-empty top panel stack whose outermost panel is \<open>pax\<close>:
  the contents go from the main axes to the panel when the preference is \<open>True\<close>, or is
  \<^verbatim>\<open>'panels'\<close> and the panel is not hidden, and from the panel to the main axes
  otherwise. Exactly the slots left, center and right (and abc when the abc location is one
  of these) are transferred, each as \<open>transfer_text\<close> does it; the other slots and all
  other axes stay as they were, and the destination takes the two pads of the source.
\<close>

theorem above_title_direction:
  assumes ne: "panel_dict (st self) STop \<noteq> []"
    and pax: "pax = last (panel_dict (st self) STop)"
    and diff: "pax \<noteq> self"
  shows "let to_panel = (title_above (st self) = VBool True
               \<or> (title_above (st self) = VStr ''panels'' \<and> \<not> panel_hidden (st pax)));
             src = (if to_panel then self else pax);
             dest = (if to_panel then pax else self);
             names = [TLeft, TCenter, TRight]
               @ (if abc_loc (st self) \<in> {Some TLeft, Some TCenter, Some TRight} then [Abc] else []);
             st' = above_title st self
         in (\<forall>n\<in>set names.
               title_dict (st' src) n = moved_src (title_dict (st src) n)
               \<and> title_dict (st' dest) n = moved_dest (title_dict (st src) n) (title_dict (st dest) n))
          \<and> (\<forall>n. n \<notin> set names \<longrightarrow>
               title_dict (st' src) n = title_dict (st src) n
               \<and> title_dict (st' dest) n = title_dict (st dest) n)
          \<and> title_pad (st' dest) = title_pad (st src)
          \<and> abc_title_pad (st' dest) = abc_title_pad (st src)
          \<and> (\<forall>q. q \<noteq> self \<and> q \<noteq> pax \<longrightarrow> st' q = st q)"
proof -
  let ?tp = "title_above (st self) = VBool True
      \<or> (title_above (st self) = VStr ''panels'' \<and> \<not> panel_hidden (st pax))"
  have tp: "title_to_panel st self pax = ?tp" by (auto simp: title_to_panel_def)
  have names: "outer_names (st self) = [TLeft, TCenter, TRight]
      @ (if abc_loc (st self) \<in> {Some TLeft, Some TCenter, Some TRight} then [Abc] else [])"
    by (simp add: outer_names_def)
  show ?thesis
  proof (cases ?tp)
    case True
    with tp have t: "title_to_panel st self pax" by simp
    have "above_title st self = st(self := (st self)\<lparr>title_dict :=
               (\<lambda>n. if n \<in> set (outer_names (st self)) then moved_src (title_dict (st self) n)
                    else title_dict (st self) n)\<rparr>,
        pax := (st pax)\<lparr>title_dict :=
               (\<lambda>n. if n \<in> set (outer_names (st self))
                    then moved_dest (title_dict (st self) n) (title_dict (st pax) n)
                    else title_dict (st pax) n),
               title_pad := title_pad (st self), abc_title_pad := abc_title_pad (st self)\<rparr>)"
      using above_title_diff[where st=st and self=self and pax=pax and src=self and dest=pax, OF ne pax _ _ diff] t by simp
    then show ?thesis
      unfolding Let_def names[symmetric] using True diff by simp
  next
    case False
    with tp have t: "\<not> title_to_panel st self pax" by simp
    have "above_title st self = st(pax := (st pax)\<lparr>title_dict :=
               (\<lambda>n. if n \<in> set (outer_names (st self)) then moved_src (title_dict (st pax) n)
                    else title_dict (st pax) n)\<rparr>,
        self := (st self)\<lparr>title_dict :=
               (\<lambda>n. if n \<in> set (outer_names (st self))
                    then moved_dest (title_dict (st pax) n) (title_dict (st self) n)
                    else title_dict (st self) n),
               title_pad := title_pad (st pax), abc_title_pad := abc_title_pad (st pax)\<rparr>)"
      using above_title_diff[where st=st and self=self and pax=pax and src=pax and dest=self, OF ne pax _ _ diff] t by simp
    then show ?thesis
      unfolding Let_def names[symmetric] using False diff
      by (cases "title_above (st self) = VStr ''panels''") simp_all
  qed
qed

theorem above_title_direction_witness:
  "text_str (title_dict (above_title (top_panel_figure (VStr ''panels'') False ''Hello'' []) 1 1) TCenter) = []
   \<and> text_str (title_dict (above_title (top_panel_figure (VStr ''panels'') False ''Hello'' []) 1 2) TCenter) = ''Hello''
   \<and> text_str (title_dict (above_title (top_panel_figure (VStr ''panels'') True [] ''Top'') 1 1) TCenter) = ''Top''
   \<and> text_str (title_dict (above_title (top_panel_figure (VStr ''panels'') True [] ''Top'') 1 2) TCenter) = []
   \<and> text_str (title_dict (above_title (top_panel_figure (VBool True) True ''Hello'' []) 1 2) TCenter) = ''Hello''"
proof -
  let ?F = top_panel_figure
  have p: "panel_dict (?F a h m t 1) STop \<noteq> []"
    and l: "2 = last (panel_dict (?F a h m t 1) STop)" for a h m t
    by (simp_all add: top_panel_figure_def with_title_def)
  have f: "title_above (?F a h m t (Suc 0)) = a" "panel_hidden (?F a h m t 2) = h"
    "text_str (title_dict (?F a h m t (Suc 0)) TCenter) = m"
    "text_str (title_dict (?F a h m t 2) TCenter) = t" for a h m t
    by (simp_all add: top_panel_figure_def with_title_def example_axes_def)
  have ne: "(2::nat) \<noteq> 1" by simp
  have b: "\<not> blank ''Hello''" "\<not> blank ''Top''" "blank []"
    by (simp_all add: blank_def py_isspace_def)
  have c: "TCenter \<in> set ([TLeft, TCenter, TRight] @ xs)" for xs by simp
  have 1: "text_str (title_dict (above_title (?F (VStr ''panels'') False ''Hello'' []) 1 1) TCenter) = []
    \<and> text_str (title_dict (above_title (?F (VStr ''panels'') False ''Hello'' []) 1 2) TCenter) = ''Hello''"
    using above_title_direction[where st="?F (VStr ''panels'') False ''Hello'' []" and self=1 and pax=2, OF p l ne,
        unfolded Let_def, THEN conjunct1, THEN bspec, OF c] b
    by (simp add: f moved_src_def moved_dest_def)
  have 2: "text_str (title_dict (above_title (?F (VStr ''panels'') True [] ''Top'') 1 1) TCenter) = ''Top''
    \<and> text_str (title_dict (above_title (?F (VStr ''panels'') True [] ''Top'') 1 2) TCenter) = []"
    using above_title_direction[where st="?F (VStr ''panels'') True [] ''Top''" and self=1 and pax=2, OF p l ne,
        unfolded Let_def, THEN conjunct1, THEN bspec, OF c] b
    by (simp add: f moved_src_def moved_dest_def)
  have 3: "text_str (title_dict (above_title (?F (VBool True) True ''Hello'' []) 1 2) TCenter) = ''Hello''"
    using above_title_direction[where st="?F (VBool True) True ''Hello'' []" and self=1 and pax=2, OF p l ne,
        unfolded Let_def, THEN conjunct1, THEN bspec, OF c] b
    by (simp add: f moved_src_def moved_dest_def)
  from 1 2 3 show ?thesis by simp
qed


section \<open>Titles: updating a slot\<close>

lemma map_of_filter_keys:
  "P key \<Longrightarrow> map_of (filter (\<lambda>(k, v). P k) xs) key = map_of xs key"
  by (induction xs) auto

lemma Text_update_ok:
  assumes "\<forall>key\<in>fst ` set (kw_props k). is_property E key"
  shows "Text_update E k t =
     Inr (t\<lparr>text_str := (case kw_text k of None \<Rightarrow> text_str t | Some s \<Rightarrow> s),
            color := (case map_of (kw_props k) ''color'' of None \<Rightarrow> color t | Some c \<Rightarrow> c),
            fontproperties := fontproperties t ++ (map_of (kw_props k) |` FONT_KEYS),
            other := other t ++ (map_of (kw_props k) |` (- insert ''color'' FONT_KEYS))\<rparr>)"
proof -
  from assms have "list_all (\<lambda>(key, v). is_property E key) (kw_props k)"
    by (auto simp: list_all_iff)
  then show ?thesis by (simp add: Text_update_def)
qed

lemma Text_update_property:
  assumes "Text_update E k t = Inr t'" and "map_of (kw_props k) key = Some v"
  shows "get_property t' key = Some v"
  using assms
  by (auto simp: Text_update_def get_property_def map_add_def restrict_map_def
      split: if_splits)

lemma Text_update_text:
  assumes "Text_update E k t = Inr t'"
  shows "text_str t' = (case kw_text k of None \<Rightarrow> text_str t | Some s \<Rightarrow> s)"
  using assms by (auto simp: Text_update_def split: if_splits)

lemma text_update_ok:
  assumes valid: "\<forall>key\<in>fst ` set (kw_props k).
      is_property E key \<or> (patched t \<and> key \<in> set PSEUDO_KEYS)"
  shows "\<exists>t'. text_update E k t = Inr t'
      \<and> text_str t' = (case kw_text k of None \<Rightarrow> text_str t | Some s \<Rightarrow> s)
      \<and> (\<forall>key v. map_of (kw_props k) key = Some v \<and> key \<notin> set PSEUDO_KEYS
            \<longrightarrow> get_property t' key = Some v)"
proof (cases "patched t")
  case False
  with valid have v: "\<forall>key\<in>fst ` set (kw_props k). is_property E key" by auto
  from Text_update_ok[OF v, of t] obtain t' where t': "Text_update E k t = Inr t'" by blast
  with False Text_update_property[OF t'] Text_update_text[OF t'] show ?thesis
    by (auto simp: text_update_def)
next
  case True
  let ?props = "filter (\<lambda>(key, v). key \<notin> set PSEUDO_KEYS) (kw_props k)"
  let ?k = "k\<lparr>kw_props := ?props\<rparr>"
  let ?t = "if truthy (pop_default (kw_props k) ''border'' VNone)
      then t\<lparr>color := (if truthy (pop_default (kw_props k) ''borderinvert'' (VBool False))
                        then pop_default (kw_props k) ''bordercolor'' (VStr ''w'')
                        else color t)\<rparr>
      else t"
  have u: "text_update E k t = Text_update E ?k ?t"
    using True by (simp add: text_update_def update_text_def Let_def)
  from valid have v: "\<forall>key\<in>fst ` set (kw_props ?k). is_property E key" by auto
  from Text_update_ok[OF v, of ?t] obtain t' where t': "Text_update E ?k ?t = Inr t'" by blast
  have m: "map_of (kw_props ?k) key = map_of (kw_props k) key" if "key \<notin> set PSEUDO_KEYS" for key
    using that by (simp add: map_of_filter_keys[where P="\<lambda>key. key \<notin> set PSEUDO_KEYS"])
  have "text_str t' = (case kw_text k of None \<Rightarrow> text_str t | Some s \<Rightarrow> s)"
    using Text_update_text[OF t'] by (simp split: option.splits)
  moreover have "\<forall>key v. map_of (kw_props k) key = Some v \<and> key \<notin> set PSEUDO_KEYS
            \<longrightarrow> get_property t' key = Some v"
    using Text_update_property[OF t'] m by auto
  ultimately show ?thesis using u t' by simp
qed

lemma above_title_no_panel: "panel_dict (st self) STop = [] \<Longrightarrow> above_title st self = st"
  by (simp add: above_title_def)

lemma above_title_other_slot:
  "k \<notin> set (outer_names (st self)) \<Longrightarrow>
   title_dict (above_title st self q) k = title_dict (st q) k"
  by (simp add: above_title_def Let_def fold_transfer_other_slot split: prod.splits)


lemma update_title_settings_fields:
  "title_dict (update_title_settings rc st self q) = title_dict (st q)"
  "panel_dict (update_title_settings rc st self q) = panel_dict (st q)"
  "abc_loc (update_title_settings rc st self q) = abc_loc (st q)"
  "title_border_kwargs (update_title_settings rc st self self) =
     AList.merge (title_border_kwargs (st self)) (rc_title_border_fill rc)"
  by (simp_all add: update_title_settings_def Let_def)

lemma update_title_given_loc:
  assumes "loc \<noteq> VNone" and "translate_loc E loc = Inr (Some s)"
  shows "update_title E rc st self loc title kwargs =
     (case text_update E
             (title_kw rc (AList.merge (title_border_kwargs (st self)) (rc_title_border_fill rc))
                s title kwargs)
             (title_dict (st self) s) of
        Inl e \<Rightarrow> Inl e
      | Inr t \<Rightarrow>
          Inr (above_title (put_text (update_title_settings rc st self) (self, s) t) self))"
  using assms by (simp add: update_title_def Let_def update_title_settings_fields)

lemma Text_update_fails:
  assumes "\<exists>key\<in>fst ` set (kw_props k). \<not> is_property E key"
  shows "Text_update E k t = Inl AttributeError"
proof -
  from assms have "\<not> list_all (\<lambda>(key, v). is_property E key) (kw_props k)"
    by (auto simp: list_all_iff)
  then show ?thesis by (simp add: Text_update_def)
qed

lemma text_update_fails:
  assumes invalid: "\<not> (\<forall>key\<in>fst ` set (kw_props k).
      is_property E key \<or> (patched t \<and> key \<in> set PSEUDO_KEYS))"
  shows "text_update E k t = Inl AttributeError"
proof (cases "patched t")
  case False
  with invalid have "\<exists>key\<in>fst ` set (kw_props k). \<not> is_property E key" by auto
  from Text_update_fails[OF this] False show ?thesis by (simp add: text_update_def)
next
  case True
  let ?props = "filter (\<lambda>(key, v). key \<notin> set PSEUDO_KEYS) (kw_props k)"
  let ?k = "k\<lparr>kw_props := ?props\<rparr>"
  from invalid True have "\<exists>key\<in>fst ` set (kw_props ?k). \<not> is_property E key"
    by force
  from Text_update_fails[OF this] True show ?thesis
    by (simp add: text_update_def update_text_def Let_def)
qed

text \<open>
  C6 (as the code has it). A call names a slot by \<open>loc\<close> (not \<open>None\<close>), on an axes that has
  no top panel or for a slot that is not one of those arbitrated with the top panel. The
  dictionary handed to the text object holds the title settings of the configuration, the
  stored border settings for a slot other than left, center and right, and the overrides.
  If every key of it is a property the text object accepts (or, for a text object made by the
  axes' own \<^verbatim>\<open>text\<close> method, a border or bbox pseudo property), the call returns, every
  override other than a pseudo property is a property of the slot afterwards, and the text
  of the slot is the \<^verbatim>\<open>text\<close> entry of the overrides if there is one, else the text
  argument when that is not \<open>None\<close>, else the text it had. Otherwise the call raises
  \<^verbatim>\<open>AttributeError\<close>.
\<close>

theorem update_title_keeps_text:
  assumes loc: "loc \<noteq> VNone" and tr: "translate_loc E loc = Inr (Some s)"
    and panels: "panel_dict (st self) STop = [] \<or> s \<notin> set (outer_names (st self))"
  shows "if (\<forall>key\<in>fst ` set (kw_props (title_kw rc
            (AList.merge (title_border_kwargs (st self)) (rc_title_border_fill rc)) s title kwargs)).
          is_property E key \<or> (patched (title_dict (st self) s) \<and> key \<in> set PSEUDO_KEYS))
      then (\<exists>st'. update_title E rc st self loc title kwargs = Inr st'
        \<and> text_str (title_dict (st' self) s) =
            (case kw_text kwargs of
               Some t \<Rightarrow> t
             | None \<Rightarrow> (case title of None \<Rightarrow> text_str (title_dict (st self) s) | Some t \<Rightarrow> t))
        \<and> (\<forall>key v. map_of (kw_props kwargs) key = Some v \<and> key \<notin> set PSEUDO_KEYS
              \<longrightarrow> get_property (title_dict (st' self) s) key = Some v))
      else update_title E rc st self loc title kwargs = Inl AttributeError"
proof (cases "\<forall>key\<in>fst ` set (kw_props (title_kw rc
            (AList.merge (title_border_kwargs (st self)) (rc_title_border_fill rc)) s title kwargs)).
          is_property E key \<or> (patched (title_dict (st self) s) \<and> key \<in> set PSEUDO_KEYS)")
  case False
  from text_update_fails[OF False] have
    "update_title E rc st self loc title kwargs = Inl AttributeError"
    by (simp add: update_title_given_loc[OF loc tr])
  with False show ?thesis by simp
next
  case valid: True
  let ?k = "title_kw rc (AList.merge (title_border_kwargs (st self)) (rc_title_border_fill rc))
      s title kwargs"
  let ?st0 = "update_title_settings rc st self"
  from text_update_ok[OF valid] obtain t' where
    t': "text_update E ?k (title_dict (st self) s) = Inr t'"
    and tx: "text_str t' = (case kw_text ?k of None \<Rightarrow> text_str (title_dict (st self) s)
                            | Some s \<Rightarrow> s)"
    and pr: "\<forall>key v. map_of (kw_props ?k) key = Some v \<and> key \<notin> set PSEUDO_KEYS
            \<longrightarrow> get_property t' key = Some v"
    by blast
  let ?st1 = "put_text ?st0 (self, s) t'"
  have res: "update_title E rc st self loc title kwargs = Inr (above_title ?st1 self)"
    by (simp add: update_title_given_loc[OF loc tr] t')
  have slot: "title_dict (above_title ?st1 self self) s = t'"
  proof -
    have pd: "panel_dict (?st1 self) = panel_dict (st self)"
      and on: "outer_names (?st1 self) = outer_names (st self)"
      by (simp_all add: put_text_def outer_names_def update_title_settings_fields)
    from panels show ?thesis
    proof
      assume "panel_dict (st self) STop = []"
      with pd have "above_title ?st1 self = ?st1" by (simp add: above_title_no_panel)
      then show ?thesis by (simp add: put_text_def)
    next
      assume "s \<notin> set (outer_names (st self))"
      with on have "title_dict (above_title ?st1 self self) s = title_dict (?st1 self) s"
        by (simp add: above_title_other_slot)
      then show ?thesis by (simp add: put_text_def)
    qed
  qed
  have kt: "kw_text ?k = (case kw_text kwargs of None \<Rightarrow> title | Some t \<Rightarrow> Some t)"
    by (simp add: title_kw_def Let_def)
  have kp: "map_of (kw_props ?k) key = Some v" if "map_of (kw_props kwargs) key = Some v" for key v
    using that by (simp add: title_kw_def Let_def merge_conv')
  from tx kt have "text_str t' =
      (case kw_text kwargs of
         Some t \<Rightarrow> t
       | None \<Rightarrow> (case title of None \<Rightarrow> text_str (title_dict (st self) s) | Some t \<Rightarrow> t))"
    by (simp split: option.splits)
  with res slot pr kp have "\<exists>st'. update_title E rc st self loc title kwargs = Inr st'
        \<and> text_str (title_dict (st' self) s) =
            (case kw_text kwargs of
               Some t \<Rightarrow> t
             | None \<Rightarrow> (case title of None \<Rightarrow> text_str (title_dict (st self) s) | Some t \<Rightarrow> t))
        \<and> (\<forall>key v. map_of (kw_props kwargs) key = Some v \<and> key \<notin> set PSEUDO_KEYS
              \<longrightarrow> get_property (title_dict (st' self) s) key = Some v)"
    by auto
  with valid show ?thesis by simp
qed

theorem update_title_keeps_text_witness:
  "(\<exists>st'. update_title example_env example_rc hello_figure 1 (VStr ''center'') None red_kw = Inr st'
      \<and> text_str (title_dict (st' 1) TCenter) = ''Hello''
      \<and> color (title_dict (st' 1) TCenter) = VStr ''red'')
   \<and> update_title example_env example_rc hello_figure 1 (VStr ''center'') None foo_kw
      = Inl AttributeError"
proof -
  have tr: "translate_loc example_env (VStr ''center'') = Inr (Some TCenter)"
    by (simp add: example_env_def slot_name_def)
  have p: "panel_dict (hello_figure 1) STop = [] \<or> TCenter \<notin> set (outer_names (hello_figure 1))"
    by (simp add: hello_figure_def with_title_def example_axes_def)
  have b: "AList.merge (title_border_kwargs (hello_figure 1)) (rc_title_border_fill example_rc) = []"
    by (simp add: example_rc_def hello_figure_def with_title_def example_axes_def AList.merge_def)
  have k: "kw_props (title_kw example_rc [] TCenter None red_kw) = [(''color'', VStr ''red'')]"
    and k': "kw_props (title_kw example_rc [] TCenter None foo_kw) = [(''foo'', VInt 1)]"
    by (simp_all add: title_kw_def example_rc_def red_kw_def foo_kw_def Let_def AList.merge_def)
  have v: "\<forall>key\<in>fst ` set (kw_props (title_kw example_rc [] TCenter None red_kw)).
        is_property example_env key
        \<or> (patched (title_dict (hello_figure 1) TCenter) \<and> key \<in> set PSEUDO_KEYS)"
    unfolding k by (simp add: example_env_def)
  have v': "\<not> (\<forall>key\<in>fst ` set (kw_props (title_kw example_rc [] TCenter None foo_kw)).
        is_property example_env key
        \<or> (patched (title_dict (hello_figure 1) TCenter) \<and> key \<in> set PSEUDO_KEYS))"
    unfolding k' by (simp add: example_env_def PSEUDO_KEYS_def)
  have t: "text_str (title_dict (hello_figure 1) TCenter) = ''Hello''"
    by (simp add: hello_figure_def with_title_def)
  have l: "VStr ''center'' \<noteq> VNone" by simp
  have n: "kw_text red_kw = None" by (simp add: red_kw_def)
  note u = update_title_keeps_text[where E=example_env and rc=example_rc and st=hello_figure
      and self=1 and s=TCenter and loc="VStr ''center''" and title=None, OF l tr p, unfolded b]
  from u[where kwargs=red_kw] v
  obtain st' where
    "update_title example_env example_rc hello_figure 1 (VStr ''center'') None red_kw = Inr st'"
    "text_str (title_dict (st' 1) TCenter) = text_str (title_dict (hello_figure 1) TCenter)"
    "\<forall>key v. map_of (kw_props red_kw) key = Some v \<and> key \<notin> set PSEUDO_KEYS
            \<longrightarrow> get_property (title_dict (st' 1) TCenter) key = Some v"
    unfolding n by (auto simp del: One_nat_def)
  moreover from this(3) have "get_property (title_dict (st' 1) TCenter) ''color'' = Some (VStr ''red'')"
    by (simp add: red_kw_def PSEUDO_KEYS_def)
  ultimately have 1: "\<exists>st'. update_title example_env example_rc hello_figure 1 (VStr ''center'') None red_kw = Inr st'
      \<and> text_str (title_dict (st' 1) TCenter) = ''Hello''
      \<and> color (title_dict (st' 1) TCenter) = VStr ''red''"
    using t by (auto simp: get_property_def)
  from u[where kwargs=foo_kw] v'
  have 2: "update_title example_env example_rc hello_figure 1 (VStr ''center'') None foo_kw
      = Inl AttributeError"
    by (simp only: if_False)
  from 1 2 show ?thesis by (rule conjI)
qed


lemma update_title_settings_other:
  "title_above (update_title_settings rc st self q) = title_above (st q)"
  "panel_hidden (update_title_settings rc st self q) = panel_hidden (st q)"
  by (simp_all add: update_title_settings_def Let_def)

text \<open>
  C6 as stated fails in three ways. On an axes with a top panel, with the preference
  \<open>False\<close>, a main title \<open>Hello\<close> and a panel title \<open>P\<close>, a call with no text and the
  colour red leaves the main slot with the text \<open>P\<close> and the colour of the panel's slot: the
  arbitration that ends the call moves the panel's content over it. With an override that
  the text object does not accept (\<^verbatim>\<open>foo=1\<close>, or \<^verbatim>\<open>border=True\<close> on the center
  title) the call raises. With a \<^verbatim>\<open>text\<close> entry among the overrides the text is
  overwritten although the text argument is \<open>None\<close>.
\<close>

theorem update_title_panel_counterexample:
  "text_str (title_dict (top_panel_figure (VBool False) False ''Hello'' ''P'' 1) TCenter) = ''Hello''
   \<and> (\<exists>st'. update_title example_env example_rc
              (top_panel_figure (VBool False) False ''Hello'' ''P'') 1 (VStr ''center'') None red_kw
            = Inr st'
        \<and> text_str (title_dict (st' 1) TCenter) = ''P''
        \<and> color (title_dict (st' 1) TCenter) = VStr ''black'')
   \<and> update_title example_env example_rc hello_figure 1 (VStr ''center'') None foo_kw
       = Inl AttributeError
   \<and> update_title example_env example_rc hello_figure 1 (VStr ''center'') None border_kw
       = Inl AttributeError
   \<and> text_str (title_dict (hello_figure 1) TCenter) = ''Hello''
   \<and> (\<exists>st'. update_title example_env example_rc hello_figure 1 (VStr ''center'') None text_kw
            = Inr st'
        \<and> text_str (title_dict (st' 1) TCenter) = ''Bye'')"
proof -
  let ?F = "top_panel_figure (VBool False) False ''Hello'' ''P''"
  have f: "title_above (?F 1) = VBool False" "panel_dict (?F 1) STop = [2]"
    "abc_loc (?F 1) = None" "title_border_kwargs (?F 1) = []"
    "text_str (title_dict (?F 1) TCenter) = ''Hello''"
    "\<not> patched (title_dict (?F 1) TCenter)"
    "text_str (title_dict (?F 2) TCenter) = ''P''"
    "color (title_dict (?F 2) TCenter) = VStr ''black''"
    by (simp_all add: top_panel_figure_def with_title_def example_axes_def empty_text_def)
  have tr: "translate_loc example_env (VStr ''center'') = Inr (Some TCenter)"
    by (simp add: example_env_def slot_name_def)
  have l: "VStr ''center'' \<noteq> VNone" by simp
  have k: "title_kw example_rc (AList.merge (title_border_kwargs (?F 1))
        (rc_title_border_fill example_rc)) TCenter None red_kw = red_kw"
    by (simp add: title_kw_def example_rc_def red_kw_def Let_def f AList.merge_def)
  have v: "\<forall>key\<in>fst ` set (kw_props red_kw). is_property example_env key"
    by (simp add: red_kw_def example_env_def)
  from Text_update_ok[OF v, of "title_dict (?F 1) TCenter"]
  obtain t' where t': "Text_update example_env red_kw (title_dict (?F 1) TCenter) = Inr t'"
    by blast
  let ?st1 = "put_text (update_title_settings example_rc ?F 1) (1, TCenter) t'"
  have res: "update_title example_env example_rc ?F 1 (VStr ''center'') None red_kw
      = Inr (above_title ?st1 1)"
    unfolding update_title_given_loc[OF l tr] k text_update_def using f(6) t' by simp
  have g: "panel_dict (?st1 1) STop \<noteq> []" "2 = last (panel_dict (?st1 1) STop)"
    "\<not> title_to_panel ?st1 1 2" "TCenter \<in> set (outer_names (?st1 1))"
    "title_dict (?st1 2) TCenter = title_dict (?F 2) TCenter"
    unfolding put_text_def title_to_panel_def outer_names_def using f
    by (simp_all add: update_title_settings_fields update_title_settings_other)
  have ne: "(2::nat) \<noteq> 1" by simp
  have "title_dict (above_title ?st1 1 1) TCenter
      = moved_dest (title_dict (?st1 2) TCenter) (title_dict (?st1 1) TCenter)"
    using above_title_diff[where st="?st1" and self=1 and pax=2 and src=2 and dest=1,
        OF g(1) g(2) _ _ ne] g(3) g(4)
    by simp
  then have "text_str (title_dict (above_title ?st1 1 1) TCenter) = ''P''"
    and "color (title_dict (above_title ?st1 1 1) TCenter) = VStr ''black''"
    unfolding g(5) moved_dest_def using f(7) f(8) by (simp_all add: blank_def py_isspace_def)
  with res f(5) have A: "text_str (title_dict (?F 1) TCenter) = ''Hello''
   \<and> (\<exists>st'. update_title example_env example_rc ?F 1 (VStr ''center'') None red_kw = Inr st'
        \<and> text_str (title_dict (st' 1) TCenter) = ''P''
        \<and> color (title_dict (st' 1) TCenter) = VStr ''black'')"
    by blast
  have h: "title_border_kwargs (hello_figure 1) = []"
    "\<not> patched (title_dict (hello_figure 1) TCenter)"
    "text_str (title_dict (hello_figure 1) TCenter) = ''Hello''"
    "panel_dict (hello_figure 1) STop = []"
    by (simp_all add: hello_figure_def with_title_def example_axes_def empty_text_def)
  have kk: "title_kw example_rc (AList.merge (title_border_kwargs (hello_figure 1))
        (rc_title_border_fill example_rc)) TCenter None foo_kw = foo_kw"
    "title_kw example_rc (AList.merge (title_border_kwargs (hello_figure 1))
        (rc_title_border_fill example_rc)) TCenter None border_kw = border_kw"
    "title_kw example_rc (AList.merge (title_border_kwargs (hello_figure 1))
        (rc_title_border_fill example_rc)) TCenter None text_kw = text_kw"
    by (simp_all add: title_kw_def example_rc_def Let_def h AList.merge_def
        foo_kw_def border_kw_def text_kw_def)
  have B: "update_title example_env example_rc hello_figure 1 (VStr ''center'') None foo_kw
       = Inl AttributeError"
    unfolding update_title_given_loc[OF l tr] kk text_update_def using h(2)
    by (simp add: Text_update_def foo_kw_def example_env_def)
  have C: "update_title example_env example_rc hello_figure 1 (VStr ''center'') None border_kw
       = Inl AttributeError"
    unfolding update_title_given_loc[OF l tr] kk text_update_def using h(2)
    by (simp add: Text_update_def border_kw_def example_env_def)
  have tu: "Text_update example_env text_kw (title_dict (hello_figure 1) TCenter)
      = Inr ((title_dict (hello_figure 1) TCenter)\<lparr>text_str := ''Bye''\<rparr>)"
    by (simp add: Text_update_def text_kw_def)
  let ?st2 = "put_text (update_title_settings example_rc hello_figure 1) (1, TCenter)
      ((title_dict (hello_figure 1) TCenter)\<lparr>text_str := ''Bye''\<rparr>)"
  have r2: "update_title example_env example_rc hello_figure 1 (VStr ''center'') None text_kw
      = Inr (above_title ?st2 1)"
    unfolding update_title_given_loc[OF l tr] kk text_update_def using h(2) tu by simp
  have "panel_dict (?st2 1) STop = []"
    using h(4) by (simp add: put_text_def update_title_settings_fields)
  then have "above_title ?st2 1 = ?st2" by (rule above_title_no_panel)
  then have "text_str (title_dict (above_title ?st2 1 1) TCenter) = ''Bye''"
    by (simp add: put_text_def)
  with r2 have D: "\<exists>st'. update_title example_env example_rc hello_figure 1 (VStr ''center'') None text_kw
            = Inr st'
        \<and> text_str (title_dict (st' 1) TCenter) = ''Bye''"
    by blast
  from A B C h(3) D show ?thesis by blast
qed

section \<open>The guide queue: replacing and accumulating\<close>

lemma update_absent: "map_of al k = None \<Longrightarrow> AList.update k v al = al @ [(k, v)]"
  by (induction al) (auto split: if_splits)

lemma update_last: "map_of al k = None \<Longrightarrow> AList.update k v (al @ [(k, w)]) = al @ [(k, v)]"
  by (induction al) (auto split: if_splits)







lemma draw_legends_append:
  "draw_legends draw (xs @ ys) ax =
     (case draw_legends draw xs ax of Inl e \<Rightarrow> Inl e | Inr ax' \<Rightarrow> draw_legends draw ys ax')"
proof (induction xs arbitrary: ax)
  case Nil
  show ?case by simp
next
  case (Cons x xs)
  obtain loc e where x: "x = (loc, e)" by (cases x)
  show ?case
    unfolding x using Cons.IH
    by (auto split: guide_entry.splits drawn.splits sum.splits)
qed

lemma queued_legend_registered:
  assumes key: "(if loc = ''fill'' then map_option side_name (panel_side ax) else Some loc) = Some key"
    and start: "map_of (legend_dict ax) key = None
      \<or> (\<exists>old. map_of (legend_dict ax) key = Some (Done (Single old)))"
    and ax0: "ax0 = (case map_of (legend_dict ax) key of
        Some (Done (Single obj_prev)) \<Rightarrow>
          (if legend_attr ax = Some obj_prev
           then ax\<lparr>legend_dict := AList.delete key (legend_dict ax), legend_attr := None\<rparr>
           else ax\<lparr>legend_dict := AList.delete key (legend_dict ax),
                   removed := removed ax @ [obj_prev]\<rparr>)
      | _ \<Rightarrow> ax)"
  shows "add_guide ''legend'' (Payload (ArgList [h1]) (ArgList [l1])) loc kw1 ax
      = Inr (ax0\<lparr>legend_dict := legend_dict ax0 @ [(key, Queued [h1] [l1] kw1)]\<rparr>)"
    and "add_guide ''legend'' (Payload (ArgList [h2]) (ArgList [l2])) loc kw2
        (ax0\<lparr>legend_dict := legend_dict ax0 @ [(key, Queued [h1] [l1] kw1)]\<rparr>)
      = Inr (ax0\<lparr>legend_dict := legend_dict ax0 @ [(key, Queued [h1, h2] [l1, l2] (kw1 ++ kw2))]\<rparr>)"
    and "map_of (legend_dict ax0) key = None"
    and "colorbar_dict ax0 = colorbar_dict ax"
proof -
  have ps: "panel_side ax0 = panel_side ax" and cd: "colorbar_dict ax0 = colorbar_dict ax"
    unfolding ax0 by (auto split: option.splits guide_entry.splits drawn.splits)
  have none: "map_of (legend_dict ax0) key = None"
    using start unfolding ax0 by (auto simp: delete_conv)
  show "add_guide ''legend'' (Payload (ArgList [h1]) (ArgList [l1])) loc kw1 ax
      = Inr (ax0\<lparr>legend_dict := legend_dict ax0 @ [(key, Queued [h1] [l1] kw1)]\<rparr>)"
    using start
  proof
    assume n: "map_of (legend_dict ax) key = None"
    then have "ax0 = ax" unfolding ax0 by simp
    with key n show ?thesis
      by (simp add: add_guide_def guide_dict_def set_guide_dict_def as_list_def Let_def
          update_absent)
  next
    assume "\<exists>old. map_of (legend_dict ax) key = Some (Done (Single old))"
    then obtain old where o: "map_of (legend_dict ax) key = Some (Done (Single old))" by blast
    have dn: "map_of (AList.delete key (legend_dict ax)) key = None" by (simp add: delete_conv)
    show ?thesis
      using key o dn unfolding ax0
      by (simp add: add_guide_def guide_dict_def set_guide_dict_def as_list_def Let_def
          update_absent)
  qed
  have key': "(if loc = ''fill'' then map_option side_name
        (panel_side (ax0\<lparr>legend_dict := legend_dict ax0 @ [(key, Queued [h1] [l1] kw1)]\<rparr>))
      else Some loc) = Some key"
    using key ps by (auto split: if_splits)
  have m: "map_of (legend_dict ax0 @ [(key, Queued [h1] [l1] kw1)]) key = Some (Queued [h1] [l1] kw1)"
    using none by (simp add: map_add_def)
  show "add_guide ''legend'' (Payload (ArgList [h2]) (ArgList [l2])) loc kw2
        (ax0\<lparr>legend_dict := legend_dict ax0 @ [(key, Queued [h1] [l1] kw1)]\<rparr>)
      = Inr (ax0\<lparr>legend_dict := legend_dict ax0 @ [(key, Queued [h1, h2] [l1, l2] (kw1 ++ kw2))]\<rparr>)"
    using key' m none
    by (simp add: add_guide_def guide_dict_def set_guide_dict_def as_list_def Let_def update_last)
  show "map_of (legend_dict ax0) key = None" by (rule none)
  show "colorbar_dict ax0 = colorbar_dict ax" by (rule cd)
qed

lemma queued_legend_flushed:
  assumes cb: "draw_colorbars draw_colorbar (colorbar_dict ax2) ax2 = Inr axc"
    and keep: "legend_dict axc = legend_dict ax2"
    and ld: "legend_dict ax2 = items @ [(key, Queued hs (l # ls) kws)]"
    and earlier: "draw_legends draw_legend items axc = Inr axm"
    and drawn: "draw_legend axm hs (Some (l # ls)) key kws = Inr (leg, ax3)"
  shows "draw_guides draw_colorbar draw_legend ax2
      = Inr (ax3\<lparr>legend_dict := AList.update key (Done leg) (legend_dict ax3)\<rparr>)"
  using cb keep ld earlier drawn
  by (simp add: draw_guides_def draw_legends_append or_none_def)

text \<open>
  C5 (as the code has it). The key under which a registration at \<open>loc\<close> is kept is
  \<open>loc\<close> itself, except for \<^verbatim>\<open>'fill'\<close>, which stands for the side of a panel; on an
  axes that is not a panel a registration at \<^verbatim>\<open>'fill'\<close> is dropped. If that key holds
  nothing or a single drawn legend (which the first registration retires), queuing
  \<open>([h1], [l1])\<close> and then \<open>([h2], [l2])\<close> leaves one queued entry at the key, the last of
  the dictionary, with the handles \<open>[h1, h2]\<close>, the labels \<open>[l1, l2]\<close> and the keyword
  arguments of the first call overwritten by those of the second. In a flush whose drawing
  calls return, the colorbar drawing leaving the legend dictionary as it is, the legend
  drawing method is handed exactly these after the earlier entries are drawn, and the
  legend it returns is stored at the key.
\<close>

theorem queued_legend_accumulates:
  "(loc = ''fill'' \<and> panel_side ax = None \<longrightarrow>
      add_guide ''legend'' (Payload (ArgList [h1]) (ArgList [l1])) loc kw1 ax = Inr ax
      \<and> add_guide ''legend'' (Payload (ArgList [h2]) (ArgList [l2])) loc kw2 ax = Inr ax)
   \<and> ((if loc = ''fill'' then map_option side_name (panel_side ax) else Some loc) = Some key
        \<and> (map_of (legend_dict ax) key = None
           \<or> (\<exists>old. map_of (legend_dict ax) key = Some (Done (Single old))))
      \<longrightarrow>
        (let ax0 = (case map_of (legend_dict ax) key of
                     Some (Done (Single obj_prev)) \<Rightarrow>
                       (if legend_attr ax = Some obj_prev
                        then ax\<lparr>legend_dict := AList.delete key (legend_dict ax),
                                legend_attr := None\<rparr>
                        else ax\<lparr>legend_dict := AList.delete key (legend_dict ax),
                                removed := removed ax @ [obj_prev]\<rparr>)
                   | _ \<Rightarrow> ax);
             q = Queued [h1, h2] [l1, l2] (kw1 ++ kw2);
             ax2 = ax0\<lparr>legend_dict := legend_dict ax0 @ [(key, q)]\<rparr>
         in (\<exists>ax1. add_guide ''legend'' (Payload (ArgList [h1]) (ArgList [l1])) loc kw1 ax = Inr ax1
                \<and> add_guide ''legend'' (Payload (ArgList [h2]) (ArgList [l2])) loc kw2 ax1 = Inr ax2)
          \<and> map_of (legend_dict ax2) key = Some q
          \<and> (\<forall>axc axm leg ax3.
                draw_colorbars draw_colorbar (colorbar_dict ax2) ax2 = Inr axc
                \<and> legend_dict axc = legend_dict ax2
                \<and> draw_legends draw_legend (legend_dict ax0) axc = Inr axm
                \<and> draw_legend axm [h1, h2] (Some [l1, l2]) key (kw1 ++ kw2) = Inr (leg, ax3)
              \<longrightarrow>
                draw_guides draw_colorbar draw_legend ax2
                  = Inr (ax3\<lparr>legend_dict := AList.update key (Done leg) (legend_dict ax3)\<rparr>)
                \<and> map_of (AList.update key (Done leg) (legend_dict ax3)) key = Some (Done leg))))"
proof (intro conjI impI)
  assume "loc = ''fill'' \<and> panel_side ax = None"
  then show "add_guide ''legend'' (Payload (ArgList [h1]) (ArgList [l1])) loc kw1 ax = Inr ax"
    and "add_guide ''legend'' (Payload (ArgList [h2]) (ArgList [l2])) loc kw2 ax = Inr ax"
    by (simp_all add: add_guide_def)
next
  assume a: "(if loc = ''fill'' then map_option side_name (panel_side ax) else Some loc) = Some key
      \<and> (map_of (legend_dict ax) key = None
           \<or> (\<exists>old. map_of (legend_dict ax) key = Some (Done (Single old))))"
  define ax0 where "ax0 = (case map_of (legend_dict ax) key of
        Some (Done (Single obj_prev)) \<Rightarrow>
          (if legend_attr ax = Some obj_prev
           then ax\<lparr>legend_dict := AList.delete key (legend_dict ax), legend_attr := None\<rparr>
           else ax\<lparr>legend_dict := AList.delete key (legend_dict ax),
                   removed := removed ax @ [obj_prev]\<rparr>)
      | _ \<Rightarrow> ax)"
  define q where "q = Queued [h1, h2] [l1, l2] (kw1 ++ kw2)"
  define ax2 where "ax2 = ax0\<lparr>legend_dict := legend_dict ax0 @ [(key, q)]\<rparr>"
  note r = queued_legend_registered[OF conjunct1[OF a] conjunct2[OF a] ax0_def]
  have 1: "\<exists>ax1. add_guide ''legend'' (Payload (ArgList [h1]) (ArgList [l1])) loc kw1 ax = Inr ax1
      \<and> add_guide ''legend'' (Payload (ArgList [h2]) (ArgList [l2])) loc kw2 ax1 = Inr ax2"
    using r(1)[where ?h1.0=h1 and ?l1.0=l1 and ?kw1.0=kw1]
      r(2)[where ?h1.0=h1 and ?l1.0=l1 and ?kw1.0=kw1 and ?h2.0=h2 and ?l2.0=l2 and ?kw2.0=kw2]
    unfolding ax2_def q_def by simp
  have 2: "map_of (legend_dict ax2) key = Some q"
    using r(3) unfolding ax2_def by (simp add: map_add_def)
  have 3: "\<forall>axc axm leg ax3.
        draw_colorbars draw_colorbar (colorbar_dict ax2) ax2 = Inr axc
        \<and> legend_dict axc = legend_dict ax2
        \<and> draw_legends draw_legend (legend_dict ax0) axc = Inr axm
        \<and> draw_legend axm [h1, h2] (Some [l1, l2]) key (kw1 ++ kw2) = Inr (leg, ax3)
      \<longrightarrow>
        draw_guides draw_colorbar draw_legend ax2
          = Inr (ax3\<lparr>legend_dict := AList.update key (Done leg) (legend_dict ax3)\<rparr>)
        \<and> map_of (AList.update key (Done leg) (legend_dict ax3)) key = Some (Done leg)"
  proof (intro allI impI)
    fix axc axm leg ax3
    assume h: "draw_colorbars draw_colorbar (colorbar_dict ax2) ax2 = Inr axc
        \<and> legend_dict axc = legend_dict ax2
        \<and> draw_legends draw_legend (legend_dict ax0) axc = Inr axm
        \<and> draw_legend axm [h1, h2] (Some [l1, l2]) key (kw1 ++ kw2) = Inr (leg, ax3)"
    have ld: "legend_dict ax2 = legend_dict ax0 @ [(key, Queued [h1, h2] [l1, l2] (kw1 ++ kw2))]"
      by (simp add: ax2_def q_def)
    from h have "draw_guides draw_colorbar draw_legend ax2
          = Inr (ax3\<lparr>legend_dict := AList.update key (Done leg) (legend_dict ax3)\<rparr>)"
      by (intro queued_legend_flushed[where axc=axc and axm=axm, OF _ _ ld]) simp_all
    then show "draw_guides draw_colorbar draw_legend ax2
          = Inr (ax3\<lparr>legend_dict := AList.update key (Done leg) (legend_dict ax3)\<rparr>)
        \<and> map_of (AList.update key (Done leg) (legend_dict ax3)) key = Some (Done leg)"
      by (simp add: update_conv')
  qed
  from 1 2 3 show "let ax0 = (case map_of (legend_dict ax) key of
                     Some (Done (Single obj_prev)) \<Rightarrow>
                       (if legend_attr ax = Some obj_prev
                        then ax\<lparr>legend_dict := AList.delete key (legend_dict ax),
                                legend_attr := None\<rparr>
                        else ax\<lparr>legend_dict := AList.delete key (legend_dict ax),
                                removed := removed ax @ [obj_prev]\<rparr>)
                   | _ \<Rightarrow> ax);
             q = Queued [h1, h2] [l1, l2] (kw1 ++ kw2);
             ax2 = ax0\<lparr>legend_dict := legend_dict ax0 @ [(key, q)]\<rparr>
         in (\<exists>ax1. add_guide ''legend'' (Payload (ArgList [h1]) (ArgList [l1])) loc kw1 ax = Inr ax1
                \<and> add_guide ''legend'' (Payload (ArgList [h2]) (ArgList [l2])) loc kw2 ax1 = Inr ax2)
          \<and> map_of (legend_dict ax2) key = Some q
          \<and> (\<forall>axc axm leg ax3.
                draw_colorbars draw_colorbar (colorbar_dict ax2) ax2 = Inr axc
                \<and> legend_dict axc = legend_dict ax2
                \<and> draw_legends draw_legend (legend_dict ax0) axc = Inr axm
                \<and> draw_legend axm [h1, h2] (Some [l1, l2]) key (kw1 ++ kw2) = Inr (leg, ax3)
              \<longrightarrow>
                draw_guides draw_colorbar draw_legend ax2
                  = Inr (ax3\<lparr>legend_dict := AList.update key (Done leg) (legend_dict ax3)\<rparr>)
                \<and> map_of (AList.update key (Done leg) (legend_dict ax3)) key = Some (Done leg))"
    unfolding Let_def ax0_def[symmetric] q_def[symmetric] ax2_def[symmetric] by blast
qed

theorem queued_legend_accumulates_witness:
  "\<exists>ax1 ax2 ax4.
      panel_side panel_legend_axes = Some SLeft
      \<and> legend_dict panel_legend_axes = [(''left'', Done (Single 7))]
      \<and> legend_attr panel_legend_axes = Some 7
      \<and> add_guide ''legend'' (Payload (ArgList [1]) (ArgList [''a''])) ''fill''
            [''ncol'' \<mapsto> VInt 1] panel_legend_axes = Inr ax1
      \<and> add_guide ''legend'' (Payload (ArgList [2]) (ArgList [''b''])) ''fill''
            [''ncol'' \<mapsto> VInt 2] ax1 = Inr ax2
      \<and> legend_dict ax2
          = [(''left'', Queued [1, 2] [''a'', ''b''] ([''ncol'' \<mapsto> VInt 1] ++ [''ncol'' \<mapsto> VInt 2]))]
      \<and> legend_attr ax2 = None
      \<and> removed ax2 = []
      \<and> draw_guides (example_drawer 8) (example_drawer 9) ax2 = Inr ax4
      \<and> legend_dict ax4 = [(''left'', Done (Single 9))]
      \<and> ([''ncol'' \<mapsto> VInt 1] ++ [''ncol'' \<mapsto> VInt 2]) ''ncol'' = Some (VInt 2)
      \<and> panel_side example_axes = None
      \<and> add_guide ''legend'' (Payload (ArgList [1]) (ArgList [''a''])) ''fill''
            [''ncol'' \<mapsto> VInt 1] example_axes = Inr example_axes
      \<and> add_guide ''legend'' (Payload (ArgList [2]) (ArgList [''b''])) ''fill''
            [''ncol'' \<mapsto> VInt 2] example_axes = Inr example_axes"
proof -
  let ?kw = "[''ncol'' \<mapsto> VInt 1] ++ [''ncol'' \<mapsto> VInt 2]"
  let ?q = "Queued [1, 2] [''a'', ''b''] ?kw"
  let ?ax0 = "panel_legend_axes\<lparr>legend_dict := AList.delete ''left'' (legend_dict panel_legend_axes),
      legend_attr := None\<rparr>"
  let ?ax2 = "?ax0\<lparr>legend_dict := legend_dict ?ax0 @ [(''left'', ?q)]\<rparr>"
  have p: "panel_side panel_legend_axes = Some SLeft"
    and l: "legend_dict panel_legend_axes = [(''left'', Done (Single 7))]"
    and a: "legend_attr panel_legend_axes = Some 7"
    and r: "removed panel_legend_axes = []"
    and c: "colorbar_dict panel_legend_axes = []"
    by (simp_all add: panel_legend_axes_def example_axes_def)
  have m: "map_of (legend_dict panel_legend_axes) ''left'' = Some (Done (Single 7))"
    by (simp add: l)
  have k: "(if ''fill'' = ''fill'' then map_option side_name (panel_side panel_legend_axes)
        else Some ''fill'') = Some ''left''
      \<and> (map_of (legend_dict panel_legend_axes) ''left'' = None
        \<or> (\<exists>old. map_of (legend_dict panel_legend_axes) ''left'' = Some (Done (Single old))))"
    by (simp add: p m side_name_def)
  note t = queued_legend_accumulates[where loc="''fill''" and ax=panel_legend_axes
      and key="''left''" and ?h1.0=1 and ?h2.0=2 and ?l1.0="''a''" and ?l2.0="''b''"
      and ?kw1.0="[''ncol'' \<mapsto> VInt 1]" and ?kw2.0="[''ncol'' \<mapsto> VInt 2]"
      and draw_legend="example_drawer 9" and draw_colorbar="example_drawer 8"]
  have L: "(\<exists>ax1. add_guide ''legend'' (Payload (ArgList [1]) (ArgList [''a''])) ''fill''
            [''ncol'' \<mapsto> VInt 1] panel_legend_axes = Inr ax1
        \<and> add_guide ''legend'' (Payload (ArgList [2]) (ArgList [''b''])) ''fill''
            [''ncol'' \<mapsto> VInt 2] ax1 = Inr ?ax2)
      \<and> map_of (legend_dict ?ax2) ''left'' = Some ?q
      \<and> (\<forall>axc axm leg ax3.
        draw_colorbars (example_drawer 8) (colorbar_dict ?ax2) ?ax2 = Inr axc
        \<and> legend_dict axc = legend_dict ?ax2
        \<and> draw_legends (example_drawer 9) (legend_dict ?ax0) axc = Inr axm
        \<and> example_drawer 9 axm [1, 2] (Some [''a'', ''b'']) ''left'' ?kw = Inr (leg, ax3)
      \<longrightarrow> draw_guides (example_drawer 8) (example_drawer 9) ?ax2
          = Inr (ax3\<lparr>legend_dict := AList.update ''left'' (Done leg) (legend_dict ax3)\<rparr>)
        \<and> map_of (AList.update ''left'' (Done leg) (legend_dict ax3)) ''left'' = Some (Done leg))"
    by (rule conjunct2[OF t, THEN mp, OF k,
          unfolded Let_def m a option.case guide_entry.case drawn.case simp_thms if_True])
  note e = L[THEN conjunct1] and f = L[THEN conjunct2, THEN conjunct2]
  have l0: "legend_dict ?ax0 = []" by (simp add: l)
  have "draw_colorbars (example_drawer 8) (colorbar_dict ?ax2) ?ax2 = Inr ?ax2
      \<and> legend_dict ?ax2 = legend_dict ?ax2
      \<and> draw_legends (example_drawer 9) (legend_dict ?ax0) ?ax2 = Inr ?ax2
      \<and> example_drawer 9 ?ax2 [1, 2] (Some [''a'', ''b'']) ''left'' ?kw = Inr (Single 9, ?ax2)"
    unfolding l0 by (simp add: c example_drawer_def)
  with f have g: "draw_guides (example_drawer 8) (example_drawer 9) ?ax2
      = Inr (?ax2\<lparr>legend_dict := AList.update ''left'' (Done (Single 9)) (legend_dict ?ax2)\<rparr>)"
    by blast
  have l2: "legend_dict ?ax2 = [(''left'', ?q)]" by (simp add: l)
  have l4: "legend_dict (?ax2\<lparr>legend_dict := AList.update ''left'' (Done (Single 9)) (legend_dict ?ax2)\<rparr>)
      = [(''left'', Done (Single 9))]"
    by (simp add: l)
  have a2: "legend_attr ?ax2 = None" and r2: "removed ?ax2 = []" by (simp_all add: r)
  from e obtain ax1 where e1: "add_guide ''legend'' (Payload (ArgList [1]) (ArgList [''a''])) ''fill''
            [''ncol'' \<mapsto> VInt 1] panel_legend_axes = Inr ax1"
    and e2: "add_guide ''legend'' (Payload (ArgList [2]) (ArgList [''b''])) ''fill''
            [''ncol'' \<mapsto> VInt 2] ax1 = Inr ?ax2"
    by blast
  have kw: "?kw ''ncol'' = Some (VInt 2)" by simp
  have n: "panel_side example_axes = None" by (simp add: example_axes_def)
  have n': "''fill'' = ''fill'' \<and> panel_side example_axes = None" using n by simp
  note d = queued_legend_accumulates[where loc="''fill''" and ax=example_axes
      and ?h1.0=1 and ?h2.0=2 and ?l1.0="''a''" and ?l2.0="''b''"
      and ?kw1.0="[''ncol'' \<mapsto> VInt 1]" and ?kw2.0="[''ncol'' \<mapsto> VInt 2]",
      THEN conjunct1, THEN mp, OF n']
  note d1 = d[THEN conjunct1] and d2 = d[THEN conjunct2]
  show ?thesis
    by (rule exI[of _ ax1], rule exI[of _ ?ax2],
        rule exI[of _ "?ax2\<lparr>legend_dict := AList.update ''left'' (Done (Single 9)) (legend_dict ?ax2)\<rparr>"])
      (insert p l a e1 e2 l2 a2 r2 g l4 kw n d1 d2, intro conjI; assumption)
qed

text \<open>
  C5 as stated fails in three ways. For the key \<^verbatim>\<open>'fill'\<close> on an axes that is not a
  panel both registrations are dropped, and the flush draws nothing. At a key that holds a
  tuple of drawn legends the registration raises. At a key that already holds a queued
  entry the two registrations are appended to it, so the handles are not \<open>[h1, h2]\<close>.
\<close>

theorem queued_legend_fill_counterexample:
  "add_guide ''legend'' (Payload (ArgList [1]) (ArgList [''a''])) ''fill'' Map.empty example_axes
     = Inr example_axes
   \<and> add_guide ''legend'' (Payload (ArgList [2]) (ArgList [''b''])) ''fill'' Map.empty example_axes
     = Inr example_axes
   \<and> draw_guides (example_drawer 8) (example_drawer 9) example_axes = Inr example_axes
   \<and> legend_dict example_axes = []
   \<and> add_guide ''legend'' (Payload (ArgList [1]) (ArgList [''a''])) ''upper right'' Map.empty
       tuple_axes = Inl ValueError
   \<and> (\<exists>ax1 ax2 ax4.
        add_guide ''legend'' (Payload (ArgList [1]) (ArgList [''a''])) ''upper right'' Map.empty
          pending_axes = Inr ax1
        \<and> add_guide ''legend'' (Payload (ArgList [2]) (ArgList [''b''])) ''upper right'' Map.empty
          ax1 = Inr ax2
        \<and> map_of (legend_dict ax2) ''upper right''
            = Some (Queued [0, 1, 2] [''z'', ''a'', ''b''] Map.empty))"
  by (simp add: add_guide_def draw_guides_def example_axes_def tuple_axes_def pending_axes_def
      guide_dict_def set_guide_dict_def as_list_def Let_def)

end
